theory Spec2Isabelle
  imports Main "HOL-Library.AList"
begin

section \<open>JSON values and \<open>JSON.stringify\<close>\<close>

text \<open>
  The values that \<open>JSON.parse\<close> yields. An object is the list of its own properties in
  the order in which \<open>Object.keys\<close> enumerates them (keys are distinct). Numbers are
  restricted to the integers that JavaScript prints in plain decimal (magnitude below
  \<open>10^21\<close>); strings are lists of code units below 256.
\<close>

datatype json =
    JNull
  | JBool bool
  | JNum int
  | JStr string
  | JArr "json list"
  | JObj "(string \<times> json) list"

definition hexDigit :: "nat \<Rightarrow> char" where
  "hexDigit n = ''0123456789abcdef'' ! (n mod 16)"

text \<open>\<open>QuoteJSONString\<close> of ECMA-262, one code unit at a time.\<close>

definition escapeCodeUnit :: "char \<Rightarrow> string" where
  "escapeCodeUnit c =
     (if c = CHR 0x08 then [CHR 0x5C, CHR ''b'']
      else if c = CHR 0x09 then [CHR 0x5C, CHR ''t'']
      else if c = CHR 0x0A then [CHR 0x5C, CHR ''n'']
      else if c = CHR 0x0C then [CHR 0x5C, CHR ''f'']
      else if c = CHR 0x0D then [CHR 0x5C, CHR ''r'']
      else if c = CHR 0x22 then [CHR 0x5C, CHR 0x22]
      else if c = CHR 0x5C then [CHR 0x5C, CHR 0x5C]
      else if (of_char c :: nat) < 32
        then [CHR 0x5C, CHR ''u'', CHR ''0'', CHR ''0'',
              hexDigit ((of_char c :: nat) div 16), hexDigit (of_char c :: nat)]
      else [c])"

definition QuoteJSONString :: "string \<Rightarrow> string" where
  "QuoteJSONString s = CHR 0x22 # concat (map escapeCodeUnit s) @ [CHR 0x22]"

fun numberToString :: "nat \<Rightarrow> string" where
  "numberToString n =
     (if n < 10 then [''0123456789'' ! n]
      else numberToString (n div 10) @ [''0123456789'' ! (n mod 10)])"

declare numberToString.simps [simp del]

definition intToString :: "int \<Rightarrow> string" where
  "intToString i = (if i < 0 then CHR ''-'' # numberToString (nat (- i)) else numberToString (nat i))"

fun joinWith :: "string \<Rightarrow> string list \<Rightarrow> string" where
  "joinWith sep [] = []"
| "joinWith sep [x] = x"
| "joinWith sep (x # y # ys) = x @ sep @ joinWith sep (y # ys)"

text \<open>
  \<open>SerializeJSONProperty\<close> with the state's \<open>PropertyList\<close>: \<open>None\<close> when
  \<open>JSON.stringify\<close> is called without a replacer, \<open>Some K\<close> when the replacer is the
  array \<open>K\<close>. With a property list, every object at every depth is serialised by
  walking \<open>K\<close> and emitting the keys of \<open>K\<close> that the object has; arrays are serialised
  element by element.
\<close>

function SerializeJSONProperty :: "string list option \<Rightarrow> json \<Rightarrow> string" where
  "SerializeJSONProperty pl JNull = ''null''"
| "SerializeJSONProperty pl (JBool b) = (if b then ''true'' else ''false'')"
| "SerializeJSONProperty pl (JNum n) = intToString n"
| "SerializeJSONProperty pl (JStr s) = QuoteJSONString s"
| "SerializeJSONProperty pl (JArr xs) =
     ''['' @ joinWith '','' (map (SerializeJSONProperty pl) xs) @ '']''"
| "SerializeJSONProperty pl (JObj kvs) =
     ''{'' @ joinWith '',''
       (case pl of
          None \<Rightarrow> map (\<lambda>kv. QuoteJSONString (fst kv) @ '':'' @ SerializeJSONProperty pl (snd kv)) kvs
        | Some K \<Rightarrow>
            concat (map (\<lambda>P. case map_of kvs P of
                               None \<Rightarrow> []
                             | Some v \<Rightarrow> [QuoteJSONString P @ '':'' @ SerializeJSONProperty pl v]) K))
     @ ''}''"
  by pat_completeness auto
termination
proof (relation "measure (\<lambda>(pl, j). size j)", goal_cases)
  case 1
  show ?case by simp
next
  case (2 pl xs x)
  then show ?case by (induction xs) auto
next
  case (3 pl kvs kv)
  then show ?case by (induction kvs) auto
next
  case (4 pl kvs K P v)
  have "map_of kvs P = Some v \<Longrightarrow> size v < Suc (size_list (size_prod (\<lambda>_. 0) size) kvs)"
    by (induction kvs) (auto split: if_splits)
  with 4 show ?case by simp
qed

definition JSON_stringify :: "json \<Rightarrow> string" where
  "JSON_stringify v = SerializeJSONProperty None v"

text \<open>The default comparison of \<open>Array.prototype.sort\<close> on strings: code unit order.\<close>

fun stringLess :: "string \<Rightarrow> string \<Rightarrow> bool" where
  "stringLess [] [] = False"
| "stringLess [] (y # ys) = True"
| "stringLess (x # xs) [] = False"
| "stringLess (x # xs) (y # ys) =
     ((of_char x :: nat) < of_char y \<or> (x = y \<and> stringLess xs ys))"

fun insertKey :: "string \<Rightarrow> string list \<Rightarrow> string list" where
  "insertKey k [] = [k]"
| "insertKey k (x # xs) = (if stringLess k x then k # x # xs else x # insertKey k xs)"

definition sortKeys :: "string list \<Rightarrow> string list" where
  "sortKeys ks = foldr insertKey ks []"

section \<open>utils.ts\<close>

text \<open>
  \<open>createRequestHash\<close>: \<open>JSON.stringify(toolInput, Object.keys(toolInput).sort())\<close>
  prefixed with the tool name and a colon.
\<close>

definition createRequestHash :: "string \<Rightarrow> (string \<times> json) list \<Rightarrow> string" where
  "createRequestHash toolName toolInput =
     toolName @ '':'' @
       SerializeJSONProperty (Some (sortKeys (map fst toolInput))) (JObj toolInput)"


section \<open>JavaScript objects and maps\<close>

text \<open>
  Property order of an ordinary object: keys that are array indices come first in
  ascending numeric order, all other string keys follow in insertion order.
\<close>

definition isDigit :: "char \<Rightarrow> bool" where
  "isDigit c = (48 \<le> (of_char c :: nat) \<and> (of_char c :: nat) \<le> 57)"

definition digitsValue :: "string \<Rightarrow> nat" where
  "digitsValue s = foldl (\<lambda>acc c. 10 * acc + ((of_char c :: nat) - 48)) 0 s"

definition isArrayIndex :: "string \<Rightarrow> bool" where
  "isArrayIndex s =
     (s \<noteq> [] \<and> list_all isDigit s \<and> (s = ''0'' \<or> hd s \<noteq> CHR ''0'')
      \<and> digitsValue s < 4294967295)"

fun objInsertIndex :: "string \<Rightarrow> json \<Rightarrow> (string \<times> json) list \<Rightarrow> (string \<times> json) list" where
  "objInsertIndex k v [] = [(k, v)]"
| "objInsertIndex k v (e # es) =
     (if isArrayIndex (fst e) \<and> digitsValue (fst e) < digitsValue k
      then e # objInsertIndex k v es
      else (k, v) # e # es)"

text \<open>\<open>CreateDataProperty\<close>, as an object literal or a spread performs it.\<close>

definition objDefine :: "string \<Rightarrow> json \<Rightarrow> (string \<times> json) list \<Rightarrow> (string \<times> json) list" where
  "objDefine k v kvs =
     (if map_of kvs k \<noteq> None then AList.update k v kvs
      else if isArrayIndex k then objInsertIndex k v kvs
      else kvs @ [(k, v)])"

text \<open>
  The assignment \<open>obj[k] = v\<close> of a string \<open>v\<close> on an object that started as
  \<open>{}\<close> and is only ever assigned to this way: the key \<open>__proto__\<close> reaches the
  setter of \<open>Object.prototype\<close>, which ignores a value that is not an object.
\<close>

definition objAssignString :: "string \<Rightarrow> string \<Rightarrow> (string \<times> json) list \<Rightarrow> (string \<times> json) list" where
  "objAssignString k v kvs =
     (if k = ''__proto__'' then kvs else objDefine k (JStr v) kvs)"

text \<open>Truthiness of an optional string: \<open>undefined\<close> and the empty string are falsy.\<close>

definition truthy :: "string option \<Rightarrow> bool" where
  "truthy x = (case x of None \<Rightarrow> False | Some t \<Rightarrow> t \<noteq> [])"

section \<open>types.ts\<close>

text \<open>
  Of a \<open>Question\<close>, the daemon's logic reads the text and the multi-select flag; the
  header and the options only feed the message layout.
\<close>

record Question =
  question :: string
  multiSelect :: "bool option"

text \<open>
  A request as its declared type has it. A \<open>UserQuestionRequest\<close> has the literal
  type \<open>user_question\<close>, so only its session and questions are kept.
\<close>

datatype request =
    PermissionRequest (rtype: string) (tool_name: string)
      (tool_input: "(string \<times> json) list") (session_id: string)
  | UserQuestionRequest (session_id: string) (questions: "Question list")

text \<open>An answer is \<open>string | string[]\<close>.\<close>

datatype answer = single string | multi "string list"

text \<open>
  \<open>answers\<close> is an object keyed by \<open>questionIndex.toString()\<close>; indices are array
  indices, so the object enumerates them in ascending order.
\<close>

type_synonym answers = "(nat \<times> answer) list"

fun answersSet :: "nat \<Rightarrow> answer \<Rightarrow> answers \<Rightarrow> answers" where
  "answersSet k v [] = [(k, v)]"
| "answersSet k v (e # es) =
     (if fst e = k then (k, v) # es
      else if fst e < k then e # answersSet k v es
      else (k, v) # e # es)"

record PendingRequest =
  pending_id :: string
  socket :: "nat option"
  additionalSockets :: "nat list option"
  request :: request
  slackTs :: "string option"
  slackChannel :: "string option"
  createdAt :: int
  isQuestion :: bool
  answers :: "answers option"

datatype decision = Allow | Deny

datatype notice = Approved | Denied | Answered | TimedOut

text \<open>
  What a handler does to the outside: bytes written to a client socket, a socket ended,
  and the calls to the Slack client (the message layouts are not modelled).
\<close>

datatype effect =
    SocketWrite nat string
  | SocketEnd nat
  | ChatPostMessage request
  | ChatUpdate string string notice
  | ViewsOpen string nat

section \<open>server.ts: state\<close>

record state =
  pendingRequests :: "(string \<times> PendingRequest) list"
  tsToPendingId :: "string \<rightharpoonup> string"
  sessionApprovals :: "string \<rightharpoonup> string set"
  recentRequestHashes :: "string \<rightharpoonup> (string \<times> int)"
  closeListeners :: "(nat \<times> string) list"

definition DEDUP_WINDOW_MS :: int where
  "DEDUP_WINDOW_MS = 30000"

definition initialState :: state where
  "initialState = \<lparr> pendingRequests = [], tsToPendingId = Map.empty,
     sessionApprovals = Map.empty, recentRequestHashes = Map.empty, closeListeners = [] \<rparr>"


section \<open>server.ts: replies\<close>

definition isQuestionRequest :: "request \<Rightarrow> bool" where
  "isQuestionRequest r =
     (case r of
        PermissionRequest ty tn ti sid \<Rightarrow> tn = ''AskUserQuestion'' \<or> ty = ''user_question''
      | UserQuestionRequest sid qs \<Rightarrow> True)"

text \<open>
  The cast \<open>tool_input as { questions?: Question[] }\<close>: the questions of a well-typed
  tool input. The cast is unchecked in the source; on a value that is not of the declared
  type the view below reads an empty text and no flag.
\<close>

definition asQuestion :: "json \<Rightarrow> Question" where
  "asQuestion j =
     (case j of
        JObj kvs \<Rightarrow>
          \<lparr> question = (case map_of kvs ''question'' of Some (JStr t) \<Rightarrow> t | _ \<Rightarrow> []),
            multiSelect = (case map_of kvs ''multiSelect'' of Some (JBool b) \<Rightarrow> Some b | _ \<Rightarrow> None) \<rparr>
      | _ \<Rightarrow> \<lparr> question = [], multiSelect = None \<rparr>)"

definition toolInputQuestions :: "(string \<times> json) list \<Rightarrow> Question list" where
  "toolInputQuestions ti =
     (case map_of ti ''questions'' of Some (JArr qs) \<Rightarrow> map asQuestion qs | _ \<Rightarrow> [])"

definition getQuestions :: "request \<Rightarrow> Question list" where
  "getQuestions r =
     (case r of
        UserQuestionRequest sid qs \<Rightarrow> qs
      | PermissionRequest ty tn ti sid \<Rightarrow> toolInputQuestions ti)"

definition isMulti :: "Question \<Rightarrow> bool" where
  "isMulti q = (multiSelect q = Some True)"

definition decisionString :: "decision \<Rightarrow> string" where
  "decisionString d = (case d of Allow \<Rightarrow> ''allow'' | Deny \<Rightarrow> ''deny'')"

definition answerText :: "answer \<Rightarrow> string" where
  "answerText a = (case a of multi xs \<Rightarrow> joinWith '', '' xs | single t \<Rightarrow> t)"

text \<open>The loop of \<open>buildHookOutput\<close> over \<open>Object.entries(answers)\<close>.\<close>

fun questionKeyedAnswers ::
  "Question list \<Rightarrow> answers \<Rightarrow> (string \<times> json) list \<Rightarrow> (string \<times> json) list" where
  "questionKeyedAnswers qs [] acc = acc"
| "questionKeyedAnswers qs (e # es) acc =
     questionKeyedAnswers qs es
       (if fst e < length qs
        then objAssignString (question (qs ! fst e)) (answerText (snd e)) acc
        else acc)"

text \<open>
  \<open>buildHookOutput\<close>. \<open>None\<close> is the \<open>TypeError\<close> of reading \<open>tool_input.questions\<close>
  on a request that has no \<open>tool_input\<close>.
\<close>

definition buildHookOutput :: "PendingRequest \<Rightarrow> decision \<Rightarrow> answers option \<Rightarrow> json option" where
  "buildHookOutput pending d ans =
     (if isQuestion pending then
        (let base = [(''hookEventName'', JStr ''PreToolUse''),
                     (''permissionDecision'', JStr (decisionString d)),
                     (''permissionDecisionReason'',
                        JStr (if d = Allow then ''Approved via Slack'' else ''Denied via Slack''))]
         in case ans of
              None \<Rightarrow> Some (JObj [(''hookSpecificOutput'', JObj base)])
            | Some a \<Rightarrow>
                if d = Allow then
                  (case request pending of
                     UserQuestionRequest sid qs \<Rightarrow> None
                   | PermissionRequest ty tn ti sid \<Rightarrow>
                       Some (JObj [(''hookSpecificOutput'',
                         JObj (base @ [(''updatedInput'',
                           JObj (objDefine ''answers''
                                  (JObj (questionKeyedAnswers (toolInputQuestions ti) a [])) ti))]))]))
                else Some (JObj [(''hookSpecificOutput'', JObj base)]))
      else
        Some (JObj [(''hookSpecificOutput'',
          JObj [(''hookEventName'', JStr ''PermissionRequest''),
                (''decision'',
                   JObj ((''behavior'', JStr (decisionString d))
                         # (if d = Deny then [(''message'', JStr ''Denied via Slack'')] else [])))])]))"

definition replyLine :: "json \<Rightarrow> string" where
  "replyLine response = JSON_stringify response @ [CHR 0x0A]"

definition writeAndEnd :: "string \<Rightarrow> nat \<Rightarrow> effect list" where
  "writeAndEnd responseStr sk = [SocketWrite sk responseStr, SocketEnd sk]"

text \<open>
  \<open>sendResponse\<close>. \<open>None\<close> when \<open>buildHookOutput\<close> throws, which happens before
  anything is written or removed.
\<close>

definition sendResponse ::
  "PendingRequest \<Rightarrow> decision \<Rightarrow> answers option \<Rightarrow> state \<Rightarrow> (effect list \<times> state) option" where
  "sendResponse pending d ans s =
     (case buildHookOutput pending d ans of
        None \<Rightarrow> None
      | Some response \<Rightarrow>
          (let responseStr = replyLine response
           in Some
             ((case socket pending of Some sk \<Rightarrow> writeAndEnd responseStr sk | None \<Rightarrow> [])
              @ (case additionalSockets pending of
                   Some sks \<Rightarrow> concat (map (writeAndEnd responseStr) sks)
                 | None \<Rightarrow> []),
              s\<lparr> tsToPendingId :=
                    (if truthy (slackTs pending)
                     then (tsToPendingId s)(the (slackTs pending) := None)
                     else tsToPendingId s),
                 pendingRequests := AList.delete (pending_id pending) (pendingRequests s) \<rparr>)))"

section \<open>server.ts: decision signals\<close>

definition published :: "PendingRequest \<Rightarrow> bool" where
  "published pending = (truthy (slackTs pending) \<and> truthy (slackChannel pending))"

definition updateCall :: "PendingRequest \<Rightarrow> notice \<Rightarrow> effect list" where
  "updateCall pending n = [ChatUpdate (the (slackChannel pending)) (the (slackTs pending)) n]"

definition cacheApproval :: "string \<Rightarrow> string \<Rightarrow> state \<Rightarrow> state" where
  "cacheApproval sid h s =
     s\<lparr> sessionApprovals :=
          (sessionApprovals s)
            (sid \<mapsto> insert h (case sessionApprovals s sid of None \<Rightarrow> {} | Some hs \<Rightarrow> hs)) \<rparr>"

text \<open>
  The approval block, written out three times in the source (button, reaction, reply):
  cache the fingerprint, update the Slack message when there is one, send the reply.
  \<open>upd\<close> says whether the awaited \<open>chat.update\<close> resolves; when it rejects, the handler
  ends there. Hashing a request without \<open>tool_input\<close> throws before anything happens.
\<close>

definition approveRequest :: "PendingRequest \<Rightarrow> bool \<Rightarrow> state \<Rightarrow> effect list \<times> state" where
  "approveRequest pending upd s =
     (case request pending of
        UserQuestionRequest sid qs \<Rightarrow> ([], s)
      | PermissionRequest ty tn ti sid \<Rightarrow>
          (let s1 = cacheApproval sid (createRequestHash tn ti) s
           in if published pending \<and> \<not> upd then (updateCall pending Approved, s1)
              else (case sendResponse pending Allow None s1 of
                      None \<Rightarrow> (if published pending then updateCall pending Approved else [], s1)
                    | Some (es, s2) \<Rightarrow>
                        ((if published pending then updateCall pending Approved else []) @ es, s2))))"

text \<open>
  The denial block, also written out three times. Building the result blocks for a request
  without \<open>tool_input\<close> throws.
\<close>

definition denyRequest :: "PendingRequest \<Rightarrow> bool \<Rightarrow> state \<Rightarrow> effect list \<times> state" where
  "denyRequest pending upd s =
     (if published pending \<and> (case request pending of UserQuestionRequest sid qs \<Rightarrow> True | _ \<Rightarrow> False)
      then ([], s)
      else if published pending \<and> \<not> upd then (updateCall pending Denied, s)
      else (case sendResponse pending Deny None s of
              None \<Rightarrow> (if published pending then updateCall pending Denied else [], s)
            | Some (es, s2) \<Rightarrow>
                ((if published pending then updateCall pending Denied else []) @ es, s2)))"

text \<open>\<open>slackApp.action('approve')\<close> and \<open>slackApp.action('deny')\<close>; the argument is \<open>action.value\<close>.\<close>

definition onApprove :: "string option \<Rightarrow> bool \<Rightarrow> state \<Rightarrow> effect list \<times> state" where
  "onApprove actionValue upd s =
     (case actionValue of
        None \<Rightarrow> ([], s)
      | Some requestId \<Rightarrow>
          (case map_of (pendingRequests s) requestId of
             None \<Rightarrow> ([], s)
           | Some pending \<Rightarrow> approveRequest pending upd s))"

definition onDeny :: "string option \<Rightarrow> bool \<Rightarrow> state \<Rightarrow> effect list \<times> state" where
  "onDeny actionValue upd s =
     (case actionValue of
        None \<Rightarrow> ([], s)
      | Some requestId \<Rightarrow>
          (case map_of (pendingRequests s) requestId of
             None \<Rightarrow> ([], s)
           | Some pending \<Rightarrow> denyRequest pending upd s))"

definition approveReactions :: "string list" where
  "approveReactions = [''+1'', ''thumbsup'', ''white_check_mark'', ''heavy_check_mark'']"

definition denyReactions :: "string list" where
  "denyReactions = [''-1'', ''thumbsdown'', ''x'', ''no_entry'']"

text \<open>\<open>slackApp.event('reaction_added')\<close>, from \<open>event.item.ts\<close> and \<open>event.reaction\<close>.\<close>

definition onReactionAdded :: "string \<Rightarrow> string \<Rightarrow> bool \<Rightarrow> state \<Rightarrow> effect list \<times> state" where
  "onReactionAdded messageTs reaction upd s =
     (if \<not> truthy (tsToPendingId s messageTs) then ([], s)
      else (case map_of (pendingRequests s) (the (tsToPendingId s messageTs)) of
              None \<Rightarrow> ([], s)
            | Some pending \<Rightarrow>
                if isQuestion pending then ([], s)
                else if List.member approveReactions reaction then approveRequest pending upd s
                else if List.member denyReactions reaction then denyRequest pending upd s
                else ([], s)))"


text \<open>
  \<open>toLowerCase\<close> and \<open>trim\<close> on code units below 256: the letters A to Z and the
  Latin-1 capitals map to their lower case; white space and line terminators are tab,
  line feed, vertical tab, form feed, carriage return, space and no-break space.
\<close>

definition lowerCodeUnit :: "char \<Rightarrow> char" where
  "lowerCodeUnit c =
     (let n = (of_char c :: nat)
      in if (65 \<le> n \<and> n \<le> 90) \<or> (192 \<le> n \<and> n \<le> 222 \<and> n \<noteq> 215)
         then char_of (n + 32) else c)"

definition toLowerCase :: "string \<Rightarrow> string" where
  "toLowerCase t = map lowerCodeUnit t"

definition isWhiteSpace :: "char \<Rightarrow> bool" where
  "isWhiteSpace c = List.member [9, 10, 11, 12, 13, 32, 160 :: nat] (of_char c)"

definition trim :: "string \<Rightarrow> string" where
  "trim t = rev (dropWhile isWhiteSpace (rev (dropWhile isWhiteSpace t)))"

definition approveWords :: "string list" where
  "approveWords = [''ok'', ''approve'', ''yes'', ''y'', ''allow'', ''go'']"

definition denyWords :: "string list" where
  "denyWords = [''no'', ''deny'', ''reject'', ''n'', ''stop'', ''cancel'']"

record MessageEvent =
  channel :: string
  msg_text :: "string option"
  thread_ts :: "string option"
  subtype :: "string option"
  bot_id :: "string option"

text \<open>
  The lookup of the message handler: a thread reply is looked up by its thread timestamp,
  any other message takes the first entry of \<open>pendingRequests\<close>, in the map's iteration
  order, that was posted to the message's channel and is not a question.
\<close>

definition messageTarget :: "MessageEvent \<Rightarrow> state \<Rightarrow> string option" where
  "messageTarget msgEvent s =
     (if truthy (thread_ts msgEvent) then tsToPendingId s (the (thread_ts msgEvent))
      else map_option fst
             (List.find (\<lambda>e. slackChannel (snd e) = Some (channel msgEvent) \<and> \<not> isQuestion (snd e))
                (pendingRequests s)))"

definition normalisedText :: "MessageEvent \<Rightarrow> string option" where
  "normalisedText msgEvent = map_option (\<lambda>t. trim (toLowerCase t)) (msg_text msgEvent)"

definition saysApprove :: "MessageEvent \<Rightarrow> bool" where
  "saysApprove msgEvent =
     (case normalisedText msgEvent of None \<Rightarrow> False | Some t \<Rightarrow> List.member approveWords t)"

definition saysDeny :: "MessageEvent \<Rightarrow> bool" where
  "saysDeny msgEvent =
     (case normalisedText msgEvent of None \<Rightarrow> False | Some t \<Rightarrow> List.member denyWords t)"

text \<open>\<open>slackApp.message\<close>.\<close>

definition onMessage :: "MessageEvent \<Rightarrow> bool \<Rightarrow> state \<Rightarrow> effect list \<times> state" where
  "onMessage msgEvent upd s =
     (if truthy (subtype msgEvent) \<or> truthy (bot_id msgEvent) then ([], s)
      else if \<not> truthy (messageTarget msgEvent s) then ([], s)
      else (case map_of (pendingRequests s) (the (messageTarget msgEvent s)) of
              None \<Rightarrow> ([], s)
            | Some pending \<Rightarrow>
                if isQuestion pending then ([], s)
                else if saysApprove msgEvent then approveRequest pending upd s
                else if saysDeny msgEvent then denyRequest pending upd s
                else ([], s)))"

section \<open>server.ts: handleRequest\<close>

definition dedupHash :: "request \<Rightarrow> string" where
  "dedupHash r =
     (if isQuestionRequest r
      then ''q:'' @ session_id r @ '':''
             @ JSON_stringify (JArr (map (\<lambda>q. JStr (question q)) (getQuestions r)))
      else (case r of
              PermissionRequest ty tn ti sid \<Rightarrow> ''p:'' @ sid @ '':'' @ createRequestHash tn ti
            | UserQuestionRequest sid qs \<Rightarrow> []))"

definition cacheResponse :: json where
  "cacheResponse =
     JObj [(''hookSpecificOutput'',
       JObj [(''hookEventName'', JStr ''PermissionRequest''),
             (''decision'', JObj [(''behavior'', JStr ''allow'')])])]"

definition emptyResponse :: json where
  "emptyResponse =
     JObj [(''hookSpecificOutput'',
       JObj [(''hookEventName'', JStr ''PreToolUse''),
             (''permissionDecision'', JStr ''allow''),
             (''permissionDecisionReason'', JStr ''No questions to answer'')])]"

text \<open>The duplicate branch: the new socket joins the request found through the dedup index.\<close>

definition attachSocket :: "nat \<Rightarrow> PendingRequest \<Rightarrow> PendingRequest" where
  "attachSocket sk existingPending =
     existingPending
       \<lparr> socket := None,
         additionalSockets :=
           Some ((case additionalSockets existingPending of None \<Rightarrow> [] | Some sks \<Rightarrow> sks)
                 @ (case socket existingPending of None \<Rightarrow> [] | Some originalSocket \<Rightarrow> [originalSocket])
                 @ [sk]) \<rparr>"

definition isDuplicate :: "request \<Rightarrow> int \<Rightarrow> state \<Rightarrow> bool" where
  "isDuplicate r now s =
     (case recentRequestHashes s (dedupHash r) of
        None \<Rightarrow> False
      | Some existing \<Rightarrow>
          now - snd existing < DEDUP_WINDOW_MS
          \<and> map_of (pendingRequests s) (fst existing) \<noteq> None)"

definition cacheHit :: "request \<Rightarrow> state \<Rightarrow> bool" where
  "cacheHit r s =
     (case r of
        UserQuestionRequest sid qs \<Rightarrow> False
      | PermissionRequest ty tn ti sid \<Rightarrow>
          (case sessionApprovals s sid of
             None \<Rightarrow> False
           | Some sessionCache \<Rightarrow> createRequestHash tn ti \<in> sessionCache))"

text \<open>
  \<open>handleRequest\<close> up to its \<open>await\<close> of \<open>chat.postMessage\<close>. \<open>now\<close> and \<open>created\<close> are
  the two readings of \<open>Date.now()\<close>, \<open>requestId\<close> is what \<open>generateRequestId()\<close> returns.
  The third component is the pending request whose prompt is being posted, when the
  function is suspended at the \<open>await\<close>, and \<open>None\<close> when it has returned.
\<close>

definition handleRequest_begin ::
  "request \<Rightarrow> nat \<Rightarrow> int \<Rightarrow> string \<Rightarrow> int \<Rightarrow> state
     \<Rightarrow> effect list \<times> state \<times> PendingRequest option" where
  "handleRequest_begin r sk now requestId created s =
     (if isDuplicate r now s then
        (let existingId = fst (the (recentRequestHashes s (dedupHash r)));
             existingPending = the (map_of (pendingRequests s) existingId)
         in ([], s\<lparr> pendingRequests :=
                      AList.update existingId (attachSocket sk existingPending) (pendingRequests s) \<rparr>,
             None))
      else
        (let s1 = s\<lparr> recentRequestHashes := (recentRequestHashes s)(dedupHash r \<mapsto> (requestId, now)) \<rparr>
         in if \<not> isQuestionRequest r \<and> cacheHit r s1
            then (writeAndEnd (replyLine cacheResponse) sk, s1, None)
            else
              (let pending = \<lparr> pending_id = requestId, socket = Some sk, additionalSockets = None,
                               request = r, slackTs = None, slackChannel = None,
                               createdAt = created, isQuestion = isQuestionRequest r,
                               answers = None \<rparr>;
                   s2 = s1\<lparr> pendingRequests := AList.update requestId pending (pendingRequests s1) \<rparr>
               in if isQuestionRequest r \<and> getQuestions r = []
                  then (writeAndEnd (replyLine emptyResponse) sk,
                        s2\<lparr> pendingRequests := AList.delete requestId (pendingRequests s2) \<rparr>, None)
                  else ([ChatPostMessage r], s2, Some pending))))"

text \<open>The outcome of \<open>chat.postMessage\<close>: \<open>result.ts\<close> and \<open>result.channel\<close>, or a rejection.\<close>

datatype publish_result = Posted "string option" "string option" | PostFailed

text \<open>
  \<open>handleRequest\<close> from the \<open>await\<close> on. The assignments to \<open>pending\<close> reach the entry of
  \<open>pendingRequests\<close> when the object is still stored there.
\<close>

definition handleRequest_resume ::
  "nat \<Rightarrow> string \<Rightarrow> PendingRequest \<Rightarrow> publish_result \<Rightarrow> state \<Rightarrow> effect list \<times> state" where
  "handleRequest_resume sk requestId pending res s =
     (case res of
        Posted ts ch \<Rightarrow>
          ([],
           s\<lparr> pendingRequests :=
                (case map_of (pendingRequests s) requestId of
                   None \<Rightarrow> pendingRequests s
                 | Some stored \<Rightarrow>
                     AList.update requestId (stored\<lparr> slackTs := ts, slackChannel := ch \<rparr>)
                       (pendingRequests s)),
              tsToPendingId :=
                (if truthy ts then (tsToPendingId s)(the ts \<mapsto> requestId) else tsToPendingId s),
              closeListeners := closeListeners s @ [(sk, requestId)] \<rparr>)
      | PostFailed \<Rightarrow>
          (writeAndEnd (replyLine (the (buildHookOutput pending Deny None))) sk,
           s\<lparr> pendingRequests := AList.delete requestId (pendingRequests s),
              closeListeners := closeListeners s @ [(sk, requestId)] \<rparr>))"

text \<open>\<open>handleRequest\<close> run through, with nothing else happening during the \<open>await\<close>.\<close>

definition handleRequest ::
  "request \<Rightarrow> nat \<Rightarrow> int \<Rightarrow> string \<Rightarrow> int \<Rightarrow> publish_result \<Rightarrow> state \<Rightarrow> effect list \<times> state" where
  "handleRequest r sk now requestId created res s =
     (case handleRequest_begin r sk now requestId created s of
        (es, s1, None) \<Rightarrow> (es, s1)
      | (es, s1, Some pending) \<Rightarrow>
          (case handleRequest_resume sk requestId pending res s1 of
             (es2, s2) \<Rightarrow> (es @ es2, s2)))"

text \<open>The \<open>close\<close> listener that \<open>handleRequest\<close> registers for \<open>requestId\<close>.\<close>

definition closeListener :: "string \<Rightarrow> state \<Rightarrow> effect list \<times> state" where
  "closeListener requestId s =
     (case map_of (pendingRequests s) requestId of
        None \<Rightarrow> ([], s)
      | Some pending \<Rightarrow>
          (if published pending then updateCall pending TimedOut else [],
           s\<lparr> pendingRequests := AList.delete requestId (pendingRequests s) \<rparr>))"

text \<open>A socket closes: its listeners run in the order in which they were registered.\<close>

fun runListeners :: "string list \<Rightarrow> state \<Rightarrow> effect list \<times> state" where
  "runListeners [] s = ([], s)"
| "runListeners (requestId # rest) s =
     (case closeListener requestId s of
        (es, s1) \<Rightarrow> (case runListeners rest s1 of (es2, s2) \<Rightarrow> (es @ es2, s2)))"

definition onSocketClose :: "nat \<Rightarrow> state \<Rightarrow> effect list \<times> state" where
  "onSocketClose sk s =
     runListeners (map snd (filter (\<lambda>l. fst l = sk) (closeListeners s))) s"

text \<open>The periodic cleanup, run at time \<open>now\<close>.\<close>

definition staleAt :: "int \<Rightarrow> PendingRequest \<Rightarrow> bool" where
  "staleAt now pending = (now - createdAt pending > 2 * 60 * 60 * 1000)"

definition endSockets :: "PendingRequest \<Rightarrow> effect list" where
  "endSockets pending =
     (case socket pending of None \<Rightarrow> [] | Some sk \<Rightarrow> [SocketEnd sk])
     @ (case additionalSockets pending of None \<Rightarrow> [] | Some sks \<Rightarrow> map SocketEnd sks)"

definition sweep :: "int \<Rightarrow> state \<Rightarrow> effect list \<times> state" where
  "sweep now s =
     (concat (map (\<lambda>e. endSockets (snd e)) (filter (\<lambda>e. staleAt now (snd e)) (pendingRequests s))),
      s\<lparr> pendingRequests := filter (\<lambda>e. \<not> staleAt now (snd e)) (pendingRequests s),
         recentRequestHashes :=
           (\<lambda>h. case recentRequestHashes s h of
                   None \<Rightarrow> None
                 | Some d \<Rightarrow> if now - snd d > DEDUP_WINDOW_MS then None else Some d) \<rparr>)"

section \<open>socket.ts: the data handler of createSocketServer\<close>

definition denyLine :: string where
  "denyLine = replyLine (JObj [(''decision'', JStr ''deny'')])"

text \<open>
  The \<open>data\<close> listener of a connection. \<open>parse\<close> is \<open>JSON.parse\<close> followed by the cast to
  the request type, \<open>None\<close> when it throws. \<open>onRequest\<close> is the callback handed to
  \<open>createSocketServer\<close>; it returns what it wrote, the state it left and whether it threw.
  The result is the connection's new buffer, the effects and the state.
\<close>

definition onData ::
  "(string \<Rightarrow> 'r option) \<Rightarrow> ('r \<Rightarrow> nat \<Rightarrow> 'st \<Rightarrow> effect list \<times> 'st \<times> bool)
     \<Rightarrow> string \<Rightarrow> string \<Rightarrow> nat \<Rightarrow> 'st \<Rightarrow> string \<times> effect list \<times> 'st" where
  "onData parse onRequest buffer dat sk s =
     (let buffer1 = buffer @ dat
      in if \<not> List.member buffer1 (CHR 0x0A) then (buffer1, [], s)
         else
           (let message = takeWhile (\<lambda>c. c \<noteq> CHR 0x0A) buffer1;
                buffer2 = drop (length message + 1) buffer1
            in case parse message of
                 None \<Rightarrow> (buffer2, writeAndEnd denyLine sk, s)
               | Some r \<Rightarrow>
                   (case onRequest r sk s of
                      (es, s1, threw) \<Rightarrow>
                        (buffer2, es @ (if threw then writeAndEnd denyLine sk else []), s1))))"


section \<open>server.ts: question signals\<close>

text \<open>The parsed \<open>action.value\<close> of a question option button.\<close>

record QuestionActionData =
  requestId :: string
  questionIndex :: nat
  optionIndex :: int
  label :: string

text \<open>
  The toggle of a multi-select option on \<open>answers[questionIndex]\<close>. A stored string that
  is not empty is taken for the array, and \<open>push\<close> or \<open>splice\<close> on it throws: \<open>None\<close>.
\<close>

definition toggleOption :: "string \<Rightarrow> answer option \<Rightarrow> string list option" where
  "toggleOption l stored =
     (case (case stored of
              None \<Rightarrow> Some []
            | Some (multi xs) \<Rightarrow> Some xs
            | Some (single t) \<Rightarrow> if t = [] then Some [] else None) of
        None \<Rightarrow> None
      | Some currentAnswers \<Rightarrow>
          Some (if \<not> List.member currentAnswers l then currentAnswers @ [l]
                else remove1 l currentAnswers))"

text \<open>The two \<open>allAnswered\<close> tests: of the option handler and of the modal handler.\<close>

definition answeredOption :: "Question \<Rightarrow> answer option \<Rightarrow> bool" where
  "answeredOption q a =
     (if isMulti q then (case a of Some (multi xs) \<Rightarrow> xs \<noteq> [] | _ \<Rightarrow> False)
      else (case a of None \<Rightarrow> False | Some (single t) \<Rightarrow> t \<noteq> [] | Some (multi xs) \<Rightarrow> True))"

definition answeredText :: "answer option \<Rightarrow> bool" where
  "answeredText a =
     (case a of None \<Rightarrow> False | Some (single t) \<Rightarrow> t \<noteq> [] | Some (multi xs) \<Rightarrow> True)"

definition allAnsweredOption :: "Question list \<Rightarrow> answers \<Rightarrow> bool" where
  "allAnsweredOption qs a =
     list_all (\<lambda>idx. answeredOption (qs ! idx) (map_of a idx)) [0..<length qs]"

definition allAnsweredText :: "Question list \<Rightarrow> answers \<Rightarrow> bool" where
  "allAnsweredText qs a = list_all (\<lambda>idx. answeredText (map_of a idx)) [0..<length qs]"

definition storeAnswers :: "string \<Rightarrow> PendingRequest \<Rightarrow> answers \<Rightarrow> state \<Rightarrow> state" where
  "storeAnswers rid pending a s =
     s\<lparr> pendingRequests := AList.update rid (pending\<lparr> answers := Some a \<rparr>) (pendingRequests s) \<rparr>"

text \<open>The tail shared by the two answer handlers: update the message, send the answers.\<close>

definition answerQuestion :: "PendingRequest \<Rightarrow> answers \<Rightarrow> bool \<Rightarrow> state \<Rightarrow> effect list \<times> state" where
  "answerQuestion pending a upd s =
     (if published pending \<and> \<not> upd then (updateCall pending Answered, s)
      else (case sendResponse pending Allow (Some a) s of
              None \<Rightarrow> (if published pending then updateCall pending Answered else [], s)
            | Some (es, s2) \<Rightarrow>
                ((if published pending then updateCall pending Answered else []) @ es, s2)))"

text \<open>\<open>slackApp.action(/^question_\d+_(\d+|other)$/)\<close>.\<close>

definition onQuestionAction ::
  "QuestionActionData option \<Rightarrow> bool \<Rightarrow> state \<Rightarrow> effect list \<times> state" where
  "onQuestionAction actionValue upd s =
     (case actionValue of
        None \<Rightarrow> ([], s)
      | Some dat \<Rightarrow>
          (case map_of (pendingRequests s) (requestId dat) of
             None \<Rightarrow> ([], s)
           | Some pending \<Rightarrow>
               (let qs = getQuestions (request pending)
                in if optionIndex dat = - 1 then
                     (if questionIndex dat < length qs
                      then [ViewsOpen (requestId dat) (questionIndex dat)] else [], s)
                   else
                     (let a0 = (case answers pending of None \<Rightarrow> [] | Some a \<Rightarrow> a);
                          s0 = storeAnswers (requestId dat) pending a0 s
                      in if \<not> questionIndex dat < length qs then ([], s0)
                         else
                           (case (if isMulti (qs ! questionIndex dat)
                                  then map_option multi (toggleOption (label dat) (map_of a0 (questionIndex dat)))
                                  else Some (single (label dat))) of
                              None \<Rightarrow> ([], s0)
                            | Some v \<Rightarrow>
                                (let a1 = answersSet (questionIndex dat) v a0;
                                     s1 = storeAnswers (requestId dat) pending a1 s
                                 in if allAnsweredOption qs a1 \<and> \<not> list_ex isMulti qs
                                    then answerQuestion (pending\<lparr> answers := Some a1 \<rparr>) a1 upd s1
                                    else ([], s1)))))))"

text \<open>
  \<open>slackApp.view('question_other_submit')\<close>, from the modal's metadata and the value of
  its input.
\<close>

definition onQuestionOtherSubmit ::
  "string \<Rightarrow> nat \<Rightarrow> string option \<Rightarrow> bool \<Rightarrow> state \<Rightarrow> effect list \<times> state" where
  "onQuestionOtherSubmit rid qIndex inputValue upd s =
     (case map_of (pendingRequests s) rid of
        None \<Rightarrow> ([], s)
      | Some pending \<Rightarrow>
          (let customAnswer = (case inputValue of None \<Rightarrow> [] | Some t \<Rightarrow> t);
               qs = getQuestions (request pending);
               a0 = (case answers pending of None \<Rightarrow> [] | Some a \<Rightarrow> a);
               a1 = answersSet qIndex (single customAnswer) a0;
               s1 = storeAnswers rid pending a1 s
           in if allAnsweredText qs a1
              then answerQuestion (pending\<lparr> answers := Some a1 \<rparr>) a1 upd s1
              else ([], s1)))"

text \<open>\<open>slackApp.action(/^confirm_multiselect_\d+$/)\<close>; the argument is the request id in \<open>action.value\<close>.\<close>

definition onConfirmMultiselect :: "string option \<Rightarrow> bool \<Rightarrow> state \<Rightarrow> effect list \<times> state" where
  "onConfirmMultiselect actionValue upd s =
     (case actionValue of
        None \<Rightarrow> ([], s)
      | Some rid \<Rightarrow>
          (case map_of (pendingRequests s) rid of
             None \<Rightarrow> ([], s)
           | Some pending \<Rightarrow>
               (let shown = (published pending \<and> answers pending \<noteq> None);
                    a = (case answers pending of None \<Rightarrow> [] | Some a \<Rightarrow> a)
                in if shown \<and> \<not> upd then (updateCall pending Answered, s)
                   else (case sendResponse pending Allow (Some a) s of
                           None \<Rightarrow> (if shown then updateCall pending Answered else [], s)
                         | Some (es, s2) \<Rightarrow>
                             ((if shown then updateCall pending Answered else []) @ es, s2)))))"

section \<open>The daemon's events\<close>

text \<open>
  One constructor per listener the daemon registers, and two for \<open>handleRequest\<close>:
  its run up to the \<open>await\<close> of \<open>chat.postMessage\<close> and its run from there.
  \<open>step\<close> runs the listener. The Boolean of a signal says whether the awaited
  \<open>chat.update\<close> resolves. A signal listener is one step: other listeners that might
  run while it awaits \<open>chat.update\<close> are not interleaved with it.
\<close>

datatype event =
    RequestBegin request nat int string int
  | RequestResume nat string PendingRequest publish_result
  | ApproveButton "string option" bool
  | DenyButton "string option" bool
  | ReactionAdded string string bool
  | Message MessageEvent bool
  | QuestionAction "QuestionActionData option" bool
  | QuestionOtherSubmit string nat "string option" bool
  | ConfirmMultiselect "string option" bool
  | SocketClose nat
  | Sweep int

fun step :: "event \<Rightarrow> state \<Rightarrow> effect list \<times> state" where
  "step (RequestBegin r sk now rid created) s =
     (case handleRequest_begin r sk now rid created s of (es, s1, waiting) \<Rightarrow> (es, s1))"
| "step (RequestResume sk rid pending res) s = handleRequest_resume sk rid pending res s"
| "step (ApproveButton v upd) s = onApprove v upd s"
| "step (DenyButton v upd) s = onDeny v upd s"
| "step (ReactionAdded ts reaction upd) s = onReactionAdded ts reaction upd s"
| "step (Message m upd) s = onMessage m upd s"
| "step (QuestionAction v upd) s = onQuestionAction v upd s"
| "step (QuestionOtherSubmit rid qIndex v upd) s = onQuestionOtherSubmit rid qIndex v upd s"
| "step (ConfirmMultiselect v upd) s = onConfirmMultiselect v upd s"
| "step (SocketClose sk) s = onSocketClose sk s"
| "step (Sweep now) s = sweep now s"


section \<open>Notions used in the statements\<close>

text \<open>The connections attached to a pending request: the primary socket and the additional ones.\<close>

definition attachedSockets :: "PendingRequest \<Rightarrow> nat list" where
  "attachedSockets p =
     (case socket p of None \<Rightarrow> [] | Some sk \<Rightarrow> [sk])
     @ (case additionalSockets p of None \<Rightarrow> [] | Some sks \<Rightarrow> sks)"

text \<open>The answer recorded for a question of a pending request, and the labels it selects.\<close>

definition storedAnswer :: "PendingRequest \<Rightarrow> nat \<Rightarrow> answer option" where
  "storedAnswer p qi = (case answers p of None \<Rightarrow> None | Some a \<Rightarrow> map_of a qi)"

definition labelsOf :: "answer option \<Rightarrow> string set" where
  "labelsOf a =
     (case a of
        None \<Rightarrow> {}
      | Some (multi xs) \<Rightarrow> set xs
      | Some (single t) \<Rightarrow> if t = [] then {} else {t})"

definition recordedLabels :: "state \<Rightarrow> string \<Rightarrow> nat \<Rightarrow> string set" where
  "recordedLabels s rid qi =
     (case map_of (pendingRequests s) rid of
        None \<Rightarrow> {}
      | Some p \<Rightarrow> labelsOf (storedAnswer p qi))"

text \<open>An answer array, as the toggle builds it, holds no label twice.\<close>

definition noDuplicates :: "answer option \<Rightarrow> bool" where
  "noDuplicates a = (case a of Some (multi xs) \<Rightarrow> distinct xs | _ \<Rightarrow> True)"

text \<open>The reply to a denied approval request.\<close>

definition denyResponse :: json where
  "denyResponse =
     JObj [(''hookSpecificOutput'',
       JObj [(''hookEventName'', JStr ''PermissionRequest''),
             (''decision'', JObj [(''behavior'', JStr ''deny''), (''message'', JStr ''Denied via Slack'')])])]"



section \<open>Reachable states\<close>

text \<open>
  \<open>generateRequestId\<close> returns a time stamp, a dash and random digits, never the empty
  string. The reachable states are those that the events lead to from the initial state.
\<close>

definition generatedIdOk :: "event \<Rightarrow> bool" where
  "generatedIdOk ev = (case ev of RequestBegin r sk now rid created \<Rightarrow> rid \<noteq> [] | _ \<Rightarrow> True)"

inductive reachable :: "state \<Rightarrow> bool" where
  start: "reachable initialState"
| after: "reachable s \<Longrightarrow> generatedIdOk ev \<Longrightarrow> reachable (snd (step ev s))"

text \<open>
  What holds of every reachable registry: the keys of the map are distinct, every request
  is stored under its own id, which is not empty, its question flag is the one of its
  request, and no answer array holds a label twice.
\<close>

definition goodAnswers :: "answers option \<Rightarrow> bool" where
  "goodAnswers a =
     (case a of None \<Rightarrow> True | Some al \<Rightarrow> list_all (\<lambda>kv. noDuplicates (Some (snd kv))) al)"

definition goodEntry :: "string \<times> PendingRequest \<Rightarrow> bool" where
  "goodEntry e =
     (pending_id (snd e) = fst e \<and> fst e \<noteq> []
      \<and> isQuestion (snd e) = isQuestionRequest (request (snd e))
      \<and> goodAnswers (answers (snd e)))"

definition goodRegistry :: "(string \<times> PendingRequest) list \<Rightarrow> bool" where
  "goodRegistry al = (distinct (map fst al) \<and> list_all goodEntry al)"

section \<open>Example requests and states\<close>

definition multiEditA :: "(string \<times> json) list" where
  "multiEditA =
     [(''file_path'', JStr ''a.txt''),
      (''edits'', JArr [JObj [(''old_string'', JStr ''x''), (''new_string'', JStr ''y'')]])]"

definition multiEditB :: "(string \<times> json) list" where
  "multiEditB =
     [(''file_path'', JStr ''a.txt''),
      (''edits'', JArr [JObj [(''old_string'', JStr ''x''), (''new_string'', JStr ''zzz'')]])]"

definition bashRequest :: request where
  "bashRequest =
     PermissionRequest ''PermissionRequest'' ''Bash'' [(''command'', JStr ''echo hi'')] ''s1''"

definition bashPending :: PendingRequest where
  "bashPending = \<lparr> pending_id = ''r1'', socket = Some 1, additionalSockets = None,
     request = bashRequest, slackTs = Some ''111.1'', slackChannel = Some ''C1'',
     createdAt = 1000, isQuestion = False, answers = None \<rparr>"

text \<open>The state after \<open>bashRequest\<close> arrived on socket 1 at time 1000 and its prompt was posted.\<close>

definition postedState :: state where
  "postedState = \<lparr> pendingRequests = [(''r1'', bashPending)],
     tsToPendingId = [''111.1'' \<mapsto> ''r1''],
     sessionApprovals = Map.empty,
     recentRequestHashes = [dedupHash bashRequest \<mapsto> (''r1'', 1000)],
     closeListeners = [(1, ''r1'')] \<rparr>"

text \<open>The state after the approve button was then clicked.\<close>

definition approvedState :: state where
  "approvedState = \<lparr> pendingRequests = [],
     tsToPendingId = Map.empty,
     sessionApprovals = [''s1'' \<mapsto> {createRequestHash ''Bash'' [(''command'', JStr ''echo hi'')]}],
     recentRequestHashes = [dedupHash bashRequest \<mapsto> (''r1'', 1000)],
     closeListeners = [(1, ''r1'')] \<rparr>"


text \<open>A question request with one multi-select question, pending after its prompt was posted.\<close>

definition askRequest :: request where
  "askRequest =
     PermissionRequest ''PreToolUse'' ''AskUserQuestion''
       [(''questions'',
         JArr [JObj [(''question'', JStr ''Which?''), (''multiSelect'', JBool True)]])] ''s1''"

definition askPending :: PendingRequest where
  "askPending = \<lparr> pending_id = ''r1'', socket = Some 1, additionalSockets = None,
     request = askRequest, slackTs = Some ''111.1'', slackChannel = Some ''C1'',
     createdAt = 1000, isQuestion = True, answers = None \<rparr>"

definition questionState :: state where
  "questionState = \<lparr> pendingRequests = [(''r1'', askPending)],
     tsToPendingId = [''111.1'' \<mapsto> ''r1''],
     sessionApprovals = Map.empty,
     recentRequestHashes = [dedupHash askRequest \<mapsto> (''r1'', 1000)],
     closeListeners = [(1, ''r1'')] \<rparr>"


definition toggleA :: QuestionActionData where
  "toggleA = \<lparr> requestId = ''r1'', questionIndex = 0, optionIndex = 0, label = ''A'' \<rparr>"

text \<open>A parser that rejects every line, one that accepts every line, and a callback that throws at once.\<close>

definition noJson :: "string \<Rightarrow> request option" where
  "noJson message = None"

definition throwing :: "request \<Rightarrow> nat \<Rightarrow> state \<Rightarrow> effect list \<times> state \<times> bool" where
  "throwing r sk s = ([], s, True)"

definition justBash :: "string \<Rightarrow> request option" where
  "justBash message = Some bashRequest"

text \<open>A registry with a question and two approval requests, all posted to channel \<open>C1\<close>.\<close>

definition lsRequest :: request where
  "lsRequest = PermissionRequest ''PermissionRequest'' ''Bash'' [(''command'', JStr ''ls'')] ''s1''"

definition lsPending :: PendingRequest where
  "lsPending = \<lparr> pending_id = ''r2'', socket = Some 2, additionalSockets = None,
     request = lsRequest, slackTs = Some ''222.2'', slackChannel = Some ''C1'',
     createdAt = 2000, isQuestion = False, answers = None \<rparr>"

definition askPending0 :: PendingRequest where
  "askPending0 = askPending\<lparr> pending_id := ''q0'', socket := Some 3, slackTs := Some ''000.0'' \<rparr>"

definition busyState :: state where
  "busyState = \<lparr> pendingRequests = [(''q0'', askPending0), (''r1'', bashPending), (''r2'', lsPending)],
     tsToPendingId = [''000.0'' \<mapsto> ''q0'', ''111.1'' \<mapsto> ''r1'', ''222.2'' \<mapsto> ''r2''],
     sessionApprovals = Map.empty,
     recentRequestHashes = [dedupHash askRequest \<mapsto> (''q0'', 1000),
       dedupHash bashRequest \<mapsto> (''r1'', 1000), dedupHash lsRequest \<mapsto> (''r2'', 2000)],
     closeListeners = [(3, ''q0''), (1, ''r1''), (2, ''r2'')] \<rparr>"

definition okMessage :: MessageEvent where
  "okMessage = \<lparr> channel = ''C1'', msg_text = Some ''OK '', thread_ts = None, subtype = None,
     bot_id = None \<rparr>"


section \<open>Basic facts\<close>

lemma map_of_delete: "map_of (AList.delete k al) = (map_of al)(k := None)"
  by (rule AList.delete_conv')

lemma map_of_update: "map_of (AList.update k v al) = (map_of al)(k \<mapsto> v)"
  by (rule AList.update_conv')

lemma cacheApproval_pending [simp]:
  "pendingRequests (cacheApproval sid h s) = pendingRequests s"
  by (simp add: cacheApproval_def)


lemma approvedState_run: "snd (onApprove (Some ''r1'') True postedState) = approvedState"
  by (simp add: onApprove_def postedState_def approveRequest_def bashPending_def bashRequest_def
      published_def truthy_def cacheApproval_def sendResponse_def buildHookOutput_def Let_def
      approvedState_def)

lemma sendResponse_effects:
  "sendResponse p d a s = Some (es, s') \<Longrightarrow>
     \<exists>response. buildHookOutput p d a = Some response
       \<and> es = concat (map (writeAndEnd (replyLine response)) (attachedSockets p))"
  by (auto simp: sendResponse_def attachedSockets_def Let_def split: option.splits)

lemma sendResponse_state:
  "sendResponse p d a s = Some (es, s') \<Longrightarrow>
     pendingRequests s' = AList.delete (pending_id p) (pendingRequests s)
     \<and> recentRequestHashes s' = recentRequestHashes s
     \<and> sessionApprovals s' = sessionApprovals s
     \<and> closeListeners s' = closeListeners s
     \<and> tsToPendingId s' =
         (if truthy (slackTs p) then (tsToPendingId s)(the (slackTs p) := None) else tsToPendingId s)"
  by (auto simp: sendResponse_def Let_def split: option.splits)

lemma buildHookOutput_no_answers: "buildHookOutput p d None \<noteq> None"
  by (simp add: buildHookOutput_def Let_def)

lemma sendResponse_no_answers: "sendResponse p d None s \<noteq> None"
  using buildHookOutput_no_answers[of p d]
  by (auto simp: sendResponse_def Let_def split: option.splits)

section \<open>The fingerprint\<close>

text \<open>
  Claim C1: the fingerprint is the tool name plus a canonical serialisation of the whole
  structured input, so that two requests have the same fingerprint exactly when they have
  the same tool name and the same content, nested values included.

  The code passes the sorted top-level keys as the replacer array of \<open>JSON.stringify\<close>,
  and that array filters the keys of every nested object as well. Two \<open>MultiEdit\<close> inputs
  that differ in a nested \<open>new_string\<close> get one fingerprint.
\<close>

theorem createRequestHash_drops_nested_values:
  "multiEditA \<noteq> multiEditB
   \<and> createRequestHash ''MultiEdit'' multiEditA = createRequestHash ''MultiEdit'' multiEditB"
  by (simp add: createRequestHash_def multiEditA_def multiEditB_def sortKeys_def
      QuoteJSONString_def escapeCodeUnit_def)

section \<open>The session approval cache on submission\<close>

text \<open>
  Claim C3: a submission that is not a question, whose fingerprint is in the approval cache
  of its session and that is not attached as a duplicate, is answered at once: the allow
  reply is written to the submitting socket, which is ended; no pending request is created,
  no prompt is posted and no close listener is registered. Only the dedup index is written.
\<close>

theorem cache_hit_immediate_allow:
  assumes "r = PermissionRequest ty tn ti sid"
      and "\<not> isQuestionRequest r"
      and "sessionApprovals s sid = Some sessionCache"
      and "createRequestHash tn ti \<in> sessionCache"
      and "\<not> isDuplicate r now s"
  shows "handleRequest_begin r sk now rid created s =
           ([SocketWrite sk (replyLine cacheResponse), SocketEnd sk],
            s\<lparr> recentRequestHashes := (recentRequestHashes s)(dedupHash r \<mapsto> (rid, now)) \<rparr>, None)
         \<and> fst (handleRequest r sk now rid created res s) =
             [SocketWrite sk (replyLine cacheResponse), SocketEnd sk]
         \<and> pendingRequests (snd (handleRequest r sk now rid created res s)) = pendingRequests s
         \<and> closeListeners (snd (handleRequest r sk now rid created res s)) = closeListeners s"
  using assms
  by (simp add: handleRequest_def handleRequest_begin_def cacheHit_def writeAndEnd_def Let_def)

theorem cache_hit_immediate_allow_witness:
  "fst (handleRequest bashRequest 2 50000 ''r2'' 50000 PostFailed approvedState)
     = [SocketWrite 2 (replyLine cacheResponse), SocketEnd 2]
   \<and> pendingRequests (snd (handleRequest bashRequest 2 50000 ''r2'' 50000 PostFailed approvedState)) = []"
  using cache_hit_immediate_allow[of bashRequest "''PermissionRequest''" "''Bash''"
      "[(''command'', JStr ''echo hi'')]" "''s1''" approvedState
      "{createRequestHash ''Bash'' [(''command'', JStr ''echo hi'')]}" 50000 2 "''r2''" 50000 PostFailed]
  by (simp add: bashRequest_def isQuestionRequest_def approvedState_def isDuplicate_def
      DEDUP_WINDOW_MS_def)

section \<open>Delivery of a decision\<close>

text \<open>
  Claim C6, as the code has it: after \<open>sendResponse\<close> has written the one reply line to
  every attached connection and ended each, the pending request and the entry of the
  timestamp lookup for its Slack message are gone; the dedup index is left as it was (its
  entries go only in the periodic cleanup, once older than the window).
\<close>

theorem sendResponse_cleanup:
  "sendResponse p d a s = Some (es, s') \<Longrightarrow>
     map_of (pendingRequests s') (pending_id p) = None
     \<and> (if truthy (slackTs p) then tsToPendingId s' (the (slackTs p)) = None
         else tsToPendingId s' = tsToPendingId s)
     \<and> recentRequestHashes s' = recentRequestHashes s
     \<and> (\<exists>response. buildHookOutput p d a = Some response
          \<and> es = concat (map (\<lambda>c. [SocketWrite c (replyLine response), SocketEnd c])
                           (attachedSockets p)))"
  using sendResponse_effects[of p d a s es s'] sendResponse_state[of p d a s es s']
  by (simp add: map_of_delete writeAndEnd_def[abs_def])

theorem sendResponse_cleanup_witness:
  "map_of (pendingRequests (snd (the (sendResponse bashPending Allow None postedState)))) ''r1'' = None
   \<and> tsToPendingId (snd (the (sendResponse bashPending Allow None postedState))) ''111.1'' = None
   \<and> recentRequestHashes (snd (the (sendResponse bashPending Allow None postedState)))
       = recentRequestHashes postedState
   \<and> fst (the (sendResponse bashPending Allow None postedState))
       = [SocketWrite 1 (replyLine cacheResponse), SocketEnd 1]"
proof -
  obtain es s' where r: "sendResponse bashPending Allow None postedState = Some (es, s')"
    using sendResponse_no_answers[of bashPending Allow postedState] by auto
  have b: "buildHookOutput bashPending Allow None = Some cacheResponse"
    by (simp add: buildHookOutput_def bashPending_def cacheResponse_def decisionString_def)
  show ?thesis
    using sendResponse_cleanup[OF r] r b
    by (simp add: bashPending_def truthy_def attachedSockets_def)
qed

text \<open>
  Claim C6 as stated fails: the dedup index still maps the fingerprint of the request to
  its id after the decision has been delivered.
\<close>

theorem sendResponse_keeps_dedup_entry:
  "sendResponse bashPending Allow None postedState \<noteq> None
   \<and> recentRequestHashes postedState (dedupHash bashRequest) = Some (pending_id bashPending, 1000)
   \<and> recentRequestHashes (snd (the (sendResponse bashPending Allow None postedState)))
        (dedupHash bashRequest)
       = Some (pending_id bashPending, 1000)"
  by (simp add: sendResponse_def buildHookOutput_def bashPending_def postedState_def Let_def)

section \<open>Duplicate submissions\<close>




section \<open>A client connection closes\<close>




lemma runListeners_Cons_snd:
  "snd (runListeners (x # xs) s) = snd (runListeners xs (snd (closeListener x s)))"
  by (simp split: prod.splits)








section \<open>An invariant of the registry\<close>

lemma list_all_update: "list_all Q al \<Longrightarrow> Q (k, v) \<Longrightarrow> list_all Q (AList.update k v al)"
  by (induction al) auto

lemma list_all_delete: "list_all Q al \<Longrightarrow> list_all Q (AList.delete k al)"
  by (induction al) auto

lemma list_all_answersSet: "list_all Q a \<Longrightarrow> Q (k, v) \<Longrightarrow> list_all Q (answersSet k v a)"
  by (induction a) auto

lemma list_all_lookup: "list_all Q al \<Longrightarrow> map_of al k = Some v \<Longrightarrow> Q (k, v)"
  by (induction al) (auto split: if_splits)

lemma goodRegistry_update:
  "goodRegistry al \<Longrightarrow> goodEntry (k, v) \<Longrightarrow> goodRegistry (AList.update k v al)"
  by (simp add: goodRegistry_def list_all_update distinct_update)

lemma goodRegistry_delete: "goodRegistry al \<Longrightarrow> goodRegistry (AList.delete k al)"
  by (simp add: goodRegistry_def list_all_delete distinct_delete)

lemma goodRegistry_filter: "goodRegistry al \<Longrightarrow> goodRegistry (filter P al)"
  by (simp add: goodRegistry_def distinct_map_filter list_all_iff)

lemma goodRegistry_lookup: "goodRegistry al \<Longrightarrow> map_of al k = Some v \<Longrightarrow> goodEntry (k, v)"
  by (auto simp: goodRegistry_def list_all_iff dest: map_of_SomeD)

lemma toggleOption_distinct:
  "noDuplicates stored \<Longrightarrow> toggleOption l stored = Some xs \<Longrightarrow> distinct xs"
  by (auto simp: toggleOption_def noDuplicates_def distinct_remove1
      split: option.splits answer.splits if_splits)

lemma sendResponse_good:
  "sendResponse p d a s = Some (es, s') \<Longrightarrow> goodRegistry (pendingRequests s)
     \<Longrightarrow> goodRegistry (pendingRequests s')"
  by (simp add: sendResponse_state goodRegistry_delete)

lemma approveRequest_good:
  "goodRegistry (pendingRequests s) \<Longrightarrow> goodRegistry (pendingRequests (snd (approveRequest p upd s)))"
  by (auto simp: approveRequest_def Let_def split: request.splits option.splits
      dest!: sendResponse_state intro: goodRegistry_delete)

lemma denyRequest_good:
  "goodRegistry (pendingRequests s) \<Longrightarrow> goodRegistry (pendingRequests (snd (denyRequest p upd s)))"
  by (auto simp: denyRequest_def Let_def split: request.splits option.splits
      dest!: sendResponse_state intro: goodRegistry_delete)

lemma answerQuestion_good:
  "goodRegistry (pendingRequests s) \<Longrightarrow> goodRegistry (pendingRequests (snd (answerQuestion p a upd s)))"
  by (auto simp: answerQuestion_def Let_def split: option.splits
      dest!: sendResponse_state intro: goodRegistry_delete)

lemma storeAnswers_good:
  assumes "goodRegistry (pendingRequests s)" "map_of (pendingRequests s) rid = Some p"
      and "list_all (\<lambda>kv. noDuplicates (Some (snd kv))) a"
  shows "goodRegistry (pendingRequests (storeAnswers rid p a s))"
proof -
  have "goodEntry (rid, p)" using assms(1,2) by (rule goodRegistry_lookup)
  then have "goodEntry (rid, p\<lparr> answers := Some a \<rparr>)"
    using assms(3) by (simp add: goodEntry_def goodAnswers_def)
  then show ?thesis
    using assms(1) by (simp add: storeAnswers_def goodRegistry_update)
qed

lemma stored_answers_good:
  assumes "goodRegistry (pendingRequests s)" "map_of (pendingRequests s) rid = Some p"
  shows "list_all (\<lambda>kv. noDuplicates (Some (snd kv))) (case answers p of None \<Rightarrow> [] | Some a \<Rightarrow> a)"
  using goodRegistry_lookup[OF assms] by (simp add: goodEntry_def goodAnswers_def split: option.splits)

lemma onQuestionAction_good:
  assumes "goodRegistry (pendingRequests s)"
  shows "goodRegistry (pendingRequests (snd (onQuestionAction v upd s)))"
proof (cases v)
  case None
  then show ?thesis using assms by (simp add: onQuestionAction_def)
next
  case (Some dat)
  show ?thesis
  proof (cases "map_of (pendingRequests s) (requestId dat)")
    case None
    with Some show ?thesis using assms by (simp add: onQuestionAction_def)
  next
    case p: (Some p)
    let ?a0 = "case answers p of None \<Rightarrow> [] | Some a \<Rightarrow> a"
    note a0 = stored_answers_good[OF assms p]
    have s0: "goodRegistry (pendingRequests (storeAnswers (requestId dat) p ?a0 s))"
      by (rule storeAnswers_good[OF assms p a0])
    have s1: "goodRegistry (pendingRequests (storeAnswers (requestId dat) p
                 (answersSet (questionIndex dat) v' ?a0) s))"
      if "noDuplicates (Some v')" for v'
      by (rule storeAnswers_good[OF assms p]) (simp add: list_all_answersSet a0 that)
    have tog: "noDuplicates (Some (multi xs))"
      if "toggleOption (label dat) (map_of ?a0 (questionIndex dat)) = Some xs" for xs
    proof -
      have "noDuplicates (map_of ?a0 (questionIndex dat))"
      proof (cases "map_of ?a0 (questionIndex dat)")
        case None
        then show ?thesis by (simp add: noDuplicates_def)
      next
        case (Some w)
        from list_all_lookup[OF a0 Some] Some show ?thesis by simp
      qed
      from toggleOption_distinct[OF this that] show ?thesis by (simp add: noDuplicates_def)
    qed
    have sing: "noDuplicates (Some (single t))" for t by (simp add: noDuplicates_def)
    show ?thesis
      using Some p assms s0 s1 tog sing
      by (auto simp: onQuestionAction_def Let_def answerQuestion_good split: option.splits)
  qed
qed

lemma onQuestionOtherSubmit_good:
  assumes "goodRegistry (pendingRequests s)"
  shows "goodRegistry (pendingRequests (snd (onQuestionOtherSubmit rid qi v upd s)))"
proof (cases "map_of (pendingRequests s) rid")
  case None
  then show ?thesis using assms by (simp add: onQuestionOtherSubmit_def)
next
  case (Some p)
  note a0 = stored_answers_good[OF assms Some]
  have "goodRegistry (pendingRequests (storeAnswers rid p
           (answersSet qi (single t) (case answers p of None \<Rightarrow> [] | Some a \<Rightarrow> a)) s))" for t
  proof (rule storeAnswers_good[OF assms Some])
    have "noDuplicates (Some (single t))" by (simp add: noDuplicates_def)
    then show "list_all (\<lambda>kv. noDuplicates (Some (snd kv)))
        (answersSet qi (single t) (case answers p of None \<Rightarrow> [] | Some a \<Rightarrow> a))"
      by (simp add: list_all_answersSet a0)
  qed
  then show ?thesis
    using Some by (simp add: onQuestionOtherSubmit_def Let_def answerQuestion_good)
qed

lemma onConfirmMultiselect_good:
  "goodRegistry (pendingRequests s) \<Longrightarrow>
     goodRegistry (pendingRequests (snd (onConfirmMultiselect v upd s)))"
  by (auto simp: onConfirmMultiselect_def Let_def split: option.splits
      dest!: sendResponse_state intro: goodRegistry_delete)

lemma closeListener_good:
  "goodRegistry (pendingRequests s) \<Longrightarrow> goodRegistry (pendingRequests (snd (closeListener rid s)))"
  by (simp add: closeListener_def goodRegistry_delete split: option.splits)

lemma runListeners_good:
  "goodRegistry (pendingRequests s) \<Longrightarrow> goodRegistry (pendingRequests (snd (runListeners rids s)))"
  by (induction rids arbitrary: s)
     (simp_all add: runListeners_Cons_snd closeListener_good del: runListeners.simps(2))

lemma handleRequest_begin_good:
  assumes "goodRegistry (pendingRequests s)" "rid \<noteq> []"
  shows "goodRegistry (pendingRequests (fst (snd (handleRequest_begin r sk now rid created s))))"
proof (cases "isDuplicate r now s")
  case True
  then obtain e p where e: "recentRequestHashes s (dedupHash r) = Some e"
      and p: "map_of (pendingRequests s) (fst e) = Some p"
    by (auto simp: isDuplicate_def split: option.splits)
  have "goodEntry (fst e, p)" using assms(1) p by (rule goodRegistry_lookup)
  then have "goodEntry (fst e, attachSocket sk p)"
    by (simp add: goodEntry_def attachSocket_def)
  then show ?thesis
    using True e p assms(1) by (simp add: handleRequest_begin_def Let_def goodRegistry_update)
next
  case False
  have "goodEntry (rid, \<lparr> pending_id = rid, socket = Some sk, additionalSockets = None,
                               request = r, slackTs = None, slackChannel = None,
                               createdAt = created, isQuestion = b,
                               answers = None \<rparr>)"
    if "b = isQuestionRequest r" for b
    using assms(2) that by (simp add: goodEntry_def goodAnswers_def)
  then show ?thesis
    using False assms(1)
    by (auto simp: handleRequest_begin_def Let_def intro!: goodRegistry_update goodRegistry_delete)
qed

lemma handleRequest_resume_good:
  assumes "goodRegistry (pendingRequests s)"
  shows "goodRegistry (pendingRequests (snd (handleRequest_resume sk rid p res s)))"
proof (cases res)
  case (Posted ts ch)
  show ?thesis
  proof (cases "map_of (pendingRequests s) rid")
    case None
    with Posted assms show ?thesis by (simp add: handleRequest_resume_def)
  next
    case (Some stored)
    have "goodEntry (rid, stored)" using assms Some by (rule goodRegistry_lookup)
    then have "goodEntry (rid, stored\<lparr> slackTs := ts, slackChannel := ch \<rparr>)"
      by (simp add: goodEntry_def)
    with Posted Some assms show ?thesis
      by (simp add: handleRequest_resume_def goodRegistry_update)
  qed
next
  case PostFailed
  with assms show ?thesis by (simp add: handleRequest_resume_def goodRegistry_delete)
qed

lemma step_good:
  assumes "goodRegistry (pendingRequests s)" "generatedIdOk ev"
  shows "goodRegistry (pendingRequests (snd (step ev s)))"
proof (cases ev)
  case (RequestBegin r sk now rid created)
  with assms handleRequest_begin_good[of s rid r sk now created] show ?thesis
    by (auto simp: generatedIdOk_def split: prod.splits)
next
  case (RequestResume sk rid p res)
  with assms show ?thesis by (simp add: handleRequest_resume_good)
next
  case (ApproveButton v upd)
  with assms show ?thesis by (simp add: onApprove_def approveRequest_good split: option.splits)
next
  case (DenyButton v upd)
  with assms show ?thesis by (simp add: onDeny_def denyRequest_good split: option.splits)
next
  case (ReactionAdded ts reaction upd)
  with assms show ?thesis
    by (simp add: onReactionAdded_def approveRequest_good denyRequest_good split: option.splits)
next
  case (Message m upd)
  with assms show ?thesis
    by (simp add: onMessage_def approveRequest_good denyRequest_good split: option.splits)
next
  case (QuestionAction v upd)
  with assms show ?thesis by (simp add: onQuestionAction_good)
next
  case (QuestionOtherSubmit rid qi v upd)
  with assms show ?thesis by (simp add: onQuestionOtherSubmit_good)
next
  case (ConfirmMultiselect v upd)
  with assms show ?thesis by (simp add: onConfirmMultiselect_good)
next
  case (SocketClose sk)
  with assms show ?thesis by (simp add: onSocketClose_def runListeners_good)
next
  case (Sweep now)
  with assms show ?thesis by (simp add: sweep_def goodRegistry_filter)
qed

lemma reachable_good: "reachable s \<Longrightarrow> goodRegistry (pendingRequests s)"
proof (induction rule: reachable.induct)
  case start
  show ?case by (simp add: initialState_def goodRegistry_def)
next
  case (after s ev)
  then show ?case by (simp add: step_good)
qed

section \<open>Questions\<close>

lemma questionState_run:
  "handleRequest askRequest 1 1000 ''r1'' 1000 (Posted (Some ''111.1'') (Some ''C1'')) initialState
     = ([ChatPostMessage askRequest], questionState)"
  by (simp add: handleRequest_def handleRequest_begin_def handleRequest_resume_def isDuplicate_def
      initialState_def cacheHit_def askRequest_def isQuestionRequest_def questionState_def
      askPending_def truthy_def Let_def getQuestions_def toolInputQuestions_def)


lemma map_of_answersSet: "map_of (answersSet k v a) = (map_of a)(k \<mapsto> v)"
  by (induction a) (auto simp: fun_eq_iff)

lemma multi_question_never_answers:
  assumes "map_of (pendingRequests s) (requestId dat) = Some p"
      and "questionIndex dat < length (getQuestions (request p))"
      and "isMulti (getQuestions (request p) ! questionIndex dat)"
      and "optionIndex dat \<noteq> - 1"
  shows "onQuestionAction (Some dat) upd s =
     ([], case toggleOption (label dat) (storedAnswer p (questionIndex dat)) of
            None \<Rightarrow> storeAnswers (requestId dat) p (case answers p of None \<Rightarrow> [] | Some a \<Rightarrow> a) s
          | Some xs \<Rightarrow> storeAnswers (requestId dat) p
              (answersSet (questionIndex dat) (multi xs) (case answers p of None \<Rightarrow> [] | Some a \<Rightarrow> a)) s)"
proof -
  have ex: "list_ex isMulti (getQuestions (request p))"
    using assms(2,3) by (auto simp: list_ex_iff)
  have st: "map_of (case answers p of None \<Rightarrow> [] | Some a \<Rightarrow> a) (questionIndex dat)
      = storedAnswer p (questionIndex dat)"
    by (simp add: storedAnswer_def split: option.splits)
  show ?thesis
    using assms ex st by (simp add: onQuestionAction_def Let_def split: option.splits)
qed

lemma toggle_step:
  assumes "map_of (pendingRequests s) (requestId dat) = Some p"
      and "questionIndex dat < length (getQuestions (request p))"
      and "isMulti (getQuestions (request p) ! questionIndex dat)"
      and "optionIndex dat \<noteq> - 1"
  shows "\<exists>p'. map_of (pendingRequests (snd (onQuestionAction (Some dat) upd s))) (requestId dat) = Some p'
          \<and> request p' = request p
          \<and> storedAnswer p' (questionIndex dat) =
              (case toggleOption (label dat) (storedAnswer p (questionIndex dat)) of
                 None \<Rightarrow> storedAnswer p (questionIndex dat)
               | Some xs \<Rightarrow> Some (multi xs))"
  unfolding multi_question_never_answers[OF assms]
  by (auto simp: storeAnswers_def map_of_update storedAnswer_def map_of_answersSet
      split: option.splits)

lemma toggle_twice_labels:
  assumes "noDuplicates a"
  shows "labelsOf (case toggleOption l (case toggleOption l a of None \<Rightarrow> a | Some xs \<Rightarrow> Some (multi xs)) of
                     None \<Rightarrow> (case toggleOption l a of None \<Rightarrow> a | Some xs \<Rightarrow> Some (multi xs))
                   | Some ys \<Rightarrow> Some (multi ys)) = labelsOf a"
proof (cases a)
  case None
  then show ?thesis by (simp add: toggleOption_def labelsOf_def)
next
  case (Some v)
  show ?thesis
  proof (cases v)
    case (single t)
    with Some show ?thesis by (simp add: toggleOption_def labelsOf_def)
  next
    case (multi xs)
    with Some assms have d: "distinct xs" by (simp add: noDuplicates_def)
    show ?thesis
    proof (cases "l \<in> set xs")
      case True
      with d have "l \<notin> set (remove1 l xs)" by simp
      with True d Some multi show ?thesis
        by (auto simp: toggleOption_def labelsOf_def)
    next
      case False
      with Some multi show ?thesis
        by (simp add: toggleOption_def labelsOf_def remove1_append)
    qed
  qed
qed

lemma toggle_twice_labels_stored:
  assumes "map_of (pendingRequests s) (requestId dat) = Some p"
      and "questionIndex dat < length (getQuestions (request p))"
      and "isMulti (getQuestions (request p) ! questionIndex dat)"
      and "optionIndex dat \<noteq> - 1"
      and "noDuplicates (storedAnswer p (questionIndex dat))"
  shows "recordedLabels
           (snd (onQuestionAction (Some dat) upd2 (snd (onQuestionAction (Some dat) upd1 s))))
           (requestId dat) (questionIndex dat)
         = recordedLabels s (requestId dat) (questionIndex dat)
         \<and> map_of (pendingRequests
               (snd (onQuestionAction (Some dat) upd2 (snd (onQuestionAction (Some dat) upd1 s)))))
             (requestId dat) \<noteq> None"
proof -
  obtain p1 where p1: "map_of (pendingRequests (snd (onQuestionAction (Some dat) upd1 s))) (requestId dat) = Some p1"
      and r1: "request p1 = request p"
      and a1: "storedAnswer p1 (questionIndex dat) =
              (case toggleOption (label dat) (storedAnswer p (questionIndex dat)) of
                 None \<Rightarrow> storedAnswer p (questionIndex dat)
               | Some xs \<Rightarrow> Some (multi xs))"
    using toggle_step[OF assms(1-4), of upd1] by blast
  obtain p2 where p2: "map_of (pendingRequests (snd (onQuestionAction (Some dat) upd2
        (snd (onQuestionAction (Some dat) upd1 s))))) (requestId dat) = Some p2"
      and a2: "storedAnswer p2 (questionIndex dat) =
              (case toggleOption (label dat) (storedAnswer p1 (questionIndex dat)) of
                 None \<Rightarrow> storedAnswer p1 (questionIndex dat)
               | Some xs \<Rightarrow> Some (multi xs))"
    using toggle_step[OF p1, of upd2] assms(2-4) r1 by auto
  have "labelsOf (storedAnswer p2 (questionIndex dat)) = labelsOf (storedAnswer p (questionIndex dat))"
    unfolding a2 a1 by (rule toggle_twice_labels[OF assms(5)])
  then show ?thesis
    using p2 assms(1) by (simp add: recordedLabels_def)
qed

lemma reachable_no_duplicates:
  assumes "reachable s" and "map_of (pendingRequests s) rid = Some p"
  shows "noDuplicates (storedAnswer p qi)"
proof (cases "storedAnswer p qi")
  case None
  then show ?thesis by (simp add: noDuplicates_def)
next
  case (Some v)
  then obtain a where a: "answers p = Some a" "map_of a qi = Some v"
    by (auto simp: storedAnswer_def split: option.splits)
  have "goodEntry (rid, p)"
    using reachable_good[OF assms(1)] assms(2) by (rule goodRegistry_lookup)
  then have "list_all (\<lambda>kv. noDuplicates (Some (snd kv))) a"
    using a(1) by (simp add: goodEntry_def goodAnswers_def)
  from list_all_lookup[OF this a(2)] Some show ?thesis by simp
qed

lemma reachable_handleRequest:
  assumes "reachable s" and "rid \<noteq> []"
  shows "reachable (snd (handleRequest r sk now rid created res s))"
proof -
  obtain es s1 w where b: "handleRequest_begin r sk now rid created s = (es, s1, w)"
    by (cases "handleRequest_begin r sk now rid created s") auto
  have "reachable (snd (step (RequestBegin r sk now rid created) s))"
    using assms by (intro reachable.after) (simp_all add: generatedIdOk_def)
  then have r1: "reachable s1" using b by simp
  show ?thesis
  proof (cases w)
    case None
    with b r1 show ?thesis by (simp add: handleRequest_def)
  next
    case (Some p)
    have "reachable (snd (step (RequestResume sk rid p res) s1))"
      using r1 by (intro reachable.after) (simp_all add: generatedIdOk_def)
    with b Some show ?thesis by (auto simp: handleRequest_def split: prod.splits)
  qed
qed


lemma questionState_reachable: "reachable questionState"
  using reachable_handleRequest[OF reachable.start, of "''r1''" askRequest 1 1000 1000
      "Posted (Some ''111.1'') (Some ''C1'')"] questionState_run
  by simp

text \<open>
  Claim C10: in every reachable state, for a multi-select question of a pending request
  and any label, two option signals for that label in succession leave the set of recorded
  labels as it was, and the request is still pending.
\<close>

theorem toggle_twice_restores_answer_set:
  assumes "reachable s"
      and "map_of (pendingRequests s) (requestId dat) = Some p"
      and "questionIndex dat < length (getQuestions (request p))"
      and "isMulti (getQuestions (request p) ! questionIndex dat)"
      and "optionIndex dat \<noteq> - 1"
  shows "recordedLabels
           (snd (onQuestionAction (Some dat) upd2 (snd (onQuestionAction (Some dat) upd1 s))))
           (requestId dat) (questionIndex dat)
         = recordedLabels s (requestId dat) (questionIndex dat)
         \<and> map_of (pendingRequests
               (snd (onQuestionAction (Some dat) upd2 (snd (onQuestionAction (Some dat) upd1 s)))))
             (requestId dat) \<noteq> None"
  by (rule toggle_twice_labels_stored[OF assms(2-5) reachable_no_duplicates[OF assms(1,2)]])

lemma askPending_questions:
  "getQuestions (request askPending) = [\<lparr> question = ''Which?'', multiSelect = Some True \<rparr>]"
  by (simp add: askPending_def askRequest_def getQuestions_def toolInputQuestions_def asQuestion_def)

theorem toggle_twice_restores_answer_set_witness:
  "recordedLabels questionState ''r1'' 0 = {}
   \<and> recordedLabels (snd (onQuestionAction (Some toggleA) True questionState)) ''r1'' 0 = {''A''}
   \<and> recordedLabels
        (snd (onQuestionAction (Some toggleA) True (snd (onQuestionAction (Some toggleA) True questionState))))
        ''r1'' 0 = {}"
proof -
  have h1: "map_of (pendingRequests questionState) (requestId toggleA) = Some askPending"
    by (simp add: questionState_def toggleA_def)
  have h2: "questionIndex toggleA < length (getQuestions (request askPending))"
    by (simp add: askPending_questions toggleA_def)
  have h3: "isMulti (getQuestions (request askPending) ! questionIndex toggleA)"
    by (simp add: askPending_questions toggleA_def isMulti_def)
  have h4: "optionIndex toggleA \<noteq> - 1"
    by (simp add: toggleA_def)
  have e0: "recordedLabels questionState ''r1'' 0 = {}"
    by (simp add: recordedLabels_def questionState_def storedAnswer_def askPending_def labelsOf_def)
  have e1: "recordedLabels (snd (onQuestionAction (Some toggleA) True questionState)) ''r1'' 0 = {''A''}"
    by (simp add: multi_question_never_answers[OF h1 h2 h3 h4])
       (simp add: recordedLabels_def storedAnswer_def askPending_def labelsOf_def toggleOption_def
          toggleA_def storeAnswers_def questionState_def)
  show ?thesis
    using toggle_twice_restores_answer_set[OF questionState_reachable h1 h2 h3 h4, of True True] e0 e1
    by (simp add: toggleA_def)
qed

section \<open>Malformed input\<close>

lemma takeWhile_line: "c \<notin> set line \<Longrightarrow> takeWhile (\<lambda>x. x \<noteq> c) (line @ c # rest) = line"
  by (induction line) auto

text \<open>
  Claim C9: when the first line of a connection, up to its newline, does not parse, the
  data handler writes the one line \<open>{"decision":"deny"}\<close> to that socket and ends it;
  the registry is left as it was. When the line parses and the request callback throws,
  the handler catches it and writes that same line after whatever the callback had done.
\<close>

theorem malformed_line_is_denied:
  assumes "buffer @ dat = line @ CHR 0x0A # rest"
      and "CHR 0x0A \<notin> set line"
  shows "(parse line = None \<longrightarrow>
            onData parse onRequest buffer dat sk s
              = (rest, [SocketWrite sk denyLine, SocketEnd sk], s))
         \<and> (\<forall>r es s1. parse line = Some r \<and> onRequest r sk s = (es, s1, True) \<longrightarrow>
              onData parse onRequest buffer dat sk s
                = (rest, es @ [SocketWrite sk denyLine, SocketEnd sk], s1))
         \<and> denyLine = CHR ''{'' # CHR 0x22 # ''decision'' @ CHR 0x22 # CHR '':'' # CHR 0x22 # ''deny''
                          @ [CHR 0x22, CHR ''}'', CHR 0x0A]"
proof -
  have m: "takeWhile (\<lambda>c. c \<noteq> CHR 0x0A) (buffer @ dat) = line"
    using assms by (simp add: takeWhile_line)
  have n: "List.member (buffer @ dat) (CHR 0x0A)"
    using assms by simp
  have d: "drop (length line + 1) (buffer @ dat) = rest"
    using assms by simp
  have l: "denyLine = CHR ''{'' # CHR 0x22 # ''decision'' @ CHR 0x22 # CHR '':'' # CHR 0x22 # ''deny''
                          @ [CHR 0x22, CHR ''}'', CHR 0x0A]"
    by (simp add: denyLine_def replyLine_def JSON_stringify_def QuoteJSONString_def escapeCodeUnit_def)
  show ?thesis
    using m n d l by (simp add: onData_def Let_def writeAndEnd_def del: List.member_iff)
qed

theorem malformed_line_is_denied_witness:
  "onData noJson throwing ''{not'' ('' json'' @ [CHR 0x0A]) 7 postedState
     = ([], [SocketWrite 7 denyLine, SocketEnd 7], postedState)
   \<and> onData justBash throwing [] (''{}'' @ [CHR 0x0A]) 7 postedState
     = ([], [SocketWrite 7 denyLine, SocketEnd 7], postedState)"
  using malformed_line_is_denied[of "''{not''" "'' json'' @ [CHR 0x0A]" "''{not json''" "[]"
      noJson throwing 7 postedState]
    malformed_line_is_denied[of "[]" "''{}'' @ [CHR 0x0A]" "''{}''" "[]"
      justBash throwing 7 postedState]
  by (simp add: noJson_def justBash_def throwing_def)

section \<open>Free-text replies\<close>

lemma find_first:
  "\<forall>e \<in> set pre. \<not> P e \<Longrightarrow> P x \<Longrightarrow> List.find P (pre @ x # post) = Some x"
  by (induction pre) auto

lemma map_of_first:
  "k \<notin> fst ` set pre \<Longrightarrow> map_of (pre @ (k, v) # post) k = Some v"
  by (induction pre) auto

lemma approveRequest_others:
  "k \<noteq> pending_id p \<Longrightarrow>
     map_of (pendingRequests (snd (approveRequest p upd s))) k = map_of (pendingRequests s) k"
  by (auto simp: approveRequest_def Let_def map_of_delete
      split: request.splits option.splits prod.splits dest!: sendResponse_state)

lemma denyRequest_others:
  "k \<noteq> pending_id p \<Longrightarrow>
     map_of (pendingRequests (snd (denyRequest p upd s))) k = map_of (pendingRequests s) k"
  by (auto simp: denyRequest_def Let_def map_of_delete
      split: request.splits option.splits prod.splits dest!: sendResponse_state)

lemma words_disjoint: "saysDeny m \<Longrightarrow> \<not> saysApprove m"
  by (auto simp: saysDeny_def saysApprove_def denyWords_def approveWords_def split: option.splits)

lemma permission_reply:
  "\<not> isQuestion p \<Longrightarrow>
     buildHookOutput p Allow None = Some cacheResponse"
  by (simp add: buildHookOutput_def cacheResponse_def decisionString_def)

lemma permission_deny_reply:
  "\<not> isQuestion p \<Longrightarrow> buildHookOutput p Deny None = Some denyResponse"
  by (simp add: buildHookOutput_def denyResponse_def decisionString_def)

lemma sendResponse_permission:
  "\<not> isQuestion p \<Longrightarrow>
     sendResponse p Allow None s =
       Some (concat (map (writeAndEnd (replyLine cacheResponse)) (attachedSockets p)),
             s\<lparr> tsToPendingId :=
                    (if truthy (slackTs p) then (tsToPendingId s)(the (slackTs p) := None)
                     else tsToPendingId s),
                 pendingRequests := AList.delete (pending_id p) (pendingRequests s) \<rparr>)"
  by (simp add: sendResponse_def permission_reply attachedSockets_def Let_def split: option.splits)

lemma sendResponse_permission_deny:
  "\<not> isQuestion p \<Longrightarrow>
     sendResponse p Deny None s =
       Some (concat (map (writeAndEnd (replyLine denyResponse)) (attachedSockets p)),
             s\<lparr> tsToPendingId :=
                    (if truthy (slackTs p) then (tsToPendingId s)(the (slackTs p) := None)
                     else tsToPendingId s),
                 pendingRequests := AList.delete (pending_id p) (pendingRequests s) \<rparr>)"
  by (simp add: sendResponse_def permission_deny_reply attachedSockets_def Let_def split: option.splits)

lemma okMessage_says: "saysApprove okMessage"
  by code_simp

lemma approveRequest_permission:
  assumes "request p = PermissionRequest ty tn ti sid" and "\<not> isQuestion p"
      and "upd \<or> \<not> published p"
  shows "approveRequest p upd s =
     ((if published p then updateCall p Approved else [])
        @ concat (map (writeAndEnd (replyLine cacheResponse)) (attachedSockets p)),
      (cacheApproval sid (createRequestHash tn ti) s)
        \<lparr> tsToPendingId :=
             (if truthy (slackTs p) then (tsToPendingId s)(the (slackTs p) := None)
              else tsToPendingId s),
           pendingRequests := AList.delete (pending_id p) (pendingRequests s) \<rparr>)"
  using assms by (auto simp: approveRequest_def sendResponse_permission Let_def cacheApproval_def)

lemma denyRequest_permission:
  assumes "request p = PermissionRequest ty tn ti sid" and "\<not> isQuestion p"
      and "upd \<or> \<not> published p"
  shows "denyRequest p upd s =
     ((if published p then updateCall p Denied else [])
        @ concat (map (writeAndEnd (replyLine denyResponse)) (attachedSockets p)),
      s\<lparr> tsToPendingId :=
             (if truthy (slackTs p) then (tsToPendingId s)(the (slackTs p) := None)
              else tsToPendingId s),
         pendingRequests := AList.delete (pending_id p) (pendingRequests s) \<rparr>)"
  using assms by (auto simp: denyRequest_def sendResponse_permission_deny Let_def)


lemma direct_message_first:
  assumes human: "\<not> truthy (subtype m)" "\<not> truthy (bot_id m)"
      and direct: "\<not> truthy (thread_ts m)"
      and order: "pendingRequests s = pre @ (rid, p) # post"
      and first: "\<forall>e \<in> set pre. \<not> (slackChannel (snd e) = Some (channel m) \<and> \<not> isQuestion (snd e))"
      and match: "slackChannel p = Some (channel m)" "\<not> isQuestion p"
      and keys: "rid \<notin> fst ` set pre" "pending_id p = rid" "rid \<noteq> []"
  shows "(saysApprove m \<longrightarrow> onMessage m upd s = approveRequest p upd s)
         \<and> (saysDeny m \<longrightarrow> onMessage m upd s = denyRequest p upd s)
         \<and> (\<forall>k. k \<noteq> rid \<longrightarrow>
               map_of (pendingRequests (snd (onMessage m upd s))) k = map_of (pendingRequests s) k)
         \<and> (\<forall>k q. map_of (pendingRequests s) k = Some q \<and> isQuestion q \<longrightarrow>
               map_of (pendingRequests (snd (onMessage m upd s))) k = Some q)"
proof -
  have t: "messageTarget m s = Some rid"
    using direct order first match
    by (simp add: messageTarget_def find_first[where P="\<lambda>e. slackChannel (snd e) = Some (channel m) \<and> \<not> isQuestion (snd e)"])
  have l: "map_of (pendingRequests s) rid = Some p"
    unfolding order using keys(1) by (rule map_of_first)
  have tr: "truthy (messageTarget m s)"
    using t keys(3) by (simp add: truthy_def)
  have a: "saysApprove m \<Longrightarrow> onMessage m upd s = approveRequest p upd s"
    using human t l tr match by (simp add: onMessage_def)
  have d: "saysDeny m \<Longrightarrow> onMessage m upd s = denyRequest p upd s"
    using human t l tr match words_disjoint[of m] by (simp add: onMessage_def)
  have o: "map_of (pendingRequests (snd (onMessage m upd s))) k = map_of (pendingRequests s) k"
    if "k \<noteq> rid" for k
  proof (cases "saysApprove m")
    case True
    then show ?thesis using a approveRequest_others[of k p upd s] that keys(2) by simp
  next
    case False
    show ?thesis
    proof (cases "saysDeny m")
      case True
      then show ?thesis using d denyRequest_others[of k p upd s] that keys(2) by simp
    next
      case no: False
      with False human t l tr match show ?thesis by (simp add: onMessage_def)
    qed
  qed
  have q: "map_of (pendingRequests (snd (onMessage m upd s))) k = Some q"
    if "map_of (pendingRequests s) k = Some q" "isQuestion q" for k q
  proof -
    have "k \<noteq> rid" using that l match(2) by auto
    then show ?thesis using o that(1) by simp
  qed
  show ?thesis using a d o q by blast
qed

lemma busyState_run:
  "snd (handleRequest lsRequest 2 2000 ''r2'' 2000 (Posted (Some ''222.2'') (Some ''C1''))
     (snd (handleRequest bashRequest 1 1000 ''r1'' 1000 (Posted (Some ''111.1'') (Some ''C1''))
       (snd (handleRequest askRequest 3 1000 ''q0'' 1000 (Posted (Some ''000.0'') (Some ''C1''))
         initialState))))) = busyState"
  by (simp add: handleRequest_def handleRequest_begin_def handleRequest_resume_def isDuplicate_def
      initialState_def cacheHit_def bashRequest_def lsRequest_def askRequest_def dedupHash_def
      isQuestionRequest_def busyState_def bashPending_def lsPending_def askPending0_def
      askPending_def truthy_def Let_def getQuestions_def toolInputQuestions_def
      createRequestHash_def sortKeys_def QuoteJSONString_def escapeCodeUnit_def JSON_stringify_def)

lemma busyState_reachable: "reachable busyState"
proof -
  have "reachable (snd (handleRequest lsRequest 2 2000 ''r2'' 2000 (Posted (Some ''222.2'') (Some ''C1''))
     (snd (handleRequest bashRequest 1 1000 ''r1'' 1000 (Posted (Some ''111.1'') (Some ''C1''))
       (snd (handleRequest askRequest 3 1000 ''q0'' 1000 (Posted (Some ''000.0'') (Some ''C1''))
         initialState))))))"
    by (intro reachable_handleRequest reachable.start) simp_all
  then show ?thesis by (simp only: busyState_run)
qed

text \<open>
  Claim C8: in every reachable state, a message from a human (no subtype, no bot id) that
  is not a thread reply is applied to the first entry of the registry, in insertion order,
  that was posted to the message's channel and is not a question: with a word of the
  approve vocabulary the handler does what the approval block does for that request, with
  a word of the deny vocabulary what the denial block does. Every other entry of the
  registry stays as it is, and so does every question. When the Slack update succeeds,
  the allow or deny reply is written to every connection of that first request, which
  leaves the registry.
\<close>

theorem direct_message_resolves_first_in_channel:
  assumes "reachable s"
      and "\<not> truthy (subtype m)" and "\<not> truthy (bot_id m)"
      and "\<not> truthy (thread_ts m)"
      and "pendingRequests s = pre @ (rid, p) # post"
      and "\<forall>e \<in> set pre. \<not> (slackChannel (snd e) = Some (channel m) \<and> \<not> isQuestion (snd e))"
      and "slackChannel p = Some (channel m)" and "\<not> isQuestion p"
  shows "(saysApprove m \<longrightarrow> onMessage m upd s = approveRequest p upd s)
         \<and> (saysDeny m \<longrightarrow> onMessage m upd s = denyRequest p upd s)
         \<and> (\<forall>k. k \<noteq> rid \<longrightarrow>
               map_of (pendingRequests (snd (onMessage m upd s))) k = map_of (pendingRequests s) k)
         \<and> (\<forall>k q. map_of (pendingRequests s) k = Some q \<and> isQuestion q \<longrightarrow>
               map_of (pendingRequests (snd (onMessage m upd s))) k = Some q)
         \<and> (saysApprove m \<and> (upd \<or> \<not> published p) \<longrightarrow>
               (\<forall>c \<in> set (attachedSockets p).
                   SocketWrite c (replyLine cacheResponse) \<in> set (fst (onMessage m upd s)))
               \<and> map_of (pendingRequests (snd (onMessage m upd s))) rid = None)
         \<and> (saysDeny m \<and> (upd \<or> \<not> published p) \<longrightarrow>
               (\<forall>c \<in> set (attachedSockets p).
                   SocketWrite c (replyLine denyResponse) \<in> set (fst (onMessage m upd s)))
               \<and> map_of (pendingRequests (snd (onMessage m upd s))) rid = None)"
proof -
  note g = reachable_good[OF assms(1)]
  have k: "rid \<notin> fst ` set pre"
    using g assms(5) by (auto simp: goodRegistry_def)
  have "map_of (pendingRequests s) rid = Some p"
    unfolding assms(5) using k by (rule map_of_first)
  with g have "goodEntry (rid, p)" by (rule goodRegistry_lookup)
  then have i: "pending_id p = rid" "rid \<noteq> []" "\<not> isQuestionRequest (request p)"
    using assms(8) by (simp_all add: goodEntry_def)
  obtain ty tn ti sid where r: "request p = PermissionRequest ty tn ti sid"
    using i(3) by (cases "request p") (simp_all add: isQuestionRequest_def)
  note F = direct_message_first[OF assms(2-8) k i(1,2), of upd]
  have a: "(\<forall>c \<in> set (attachedSockets p).
               SocketWrite c (replyLine cacheResponse) \<in> set (fst (onMessage m upd s)))
           \<and> map_of (pendingRequests (snd (onMessage m upd s))) rid = None"
    if "saysApprove m" "upd \<or> \<not> published p"
  proof -
    have "onMessage m upd s = approveRequest p upd s" using F that(1) by blast
    then show ?thesis
      by (simp add: approveRequest_permission[OF r assms(8) that(2)] writeAndEnd_def i(1)
          map_of_delete)
  qed
  have d: "(\<forall>c \<in> set (attachedSockets p).
               SocketWrite c (replyLine denyResponse) \<in> set (fst (onMessage m upd s)))
           \<and> map_of (pendingRequests (snd (onMessage m upd s))) rid = None"
    if "saysDeny m" "upd \<or> \<not> published p"
  proof -
    have "onMessage m upd s = denyRequest p upd s" using F that(1) by blast
    then show ?thesis
      by (simp add: denyRequest_permission[OF r assms(8) that(2)] writeAndEnd_def i(1)
          map_of_delete)
  qed
  show ?thesis
    apply (intro conjI)
    subgoal using F by blast
    subgoal using F by blast
    subgoal using F by blast
    subgoal using F by blast
    subgoal using a by blast
    subgoal using d by blast
    done
qed

theorem direct_message_resolves_first_in_channel_witness:
  "fst (onMessage okMessage True busyState)
     = [ChatUpdate ''C1'' ''111.1'' Approved, SocketWrite 1 (replyLine cacheResponse), SocketEnd 1]
   \<and> map_of (pendingRequests (snd (onMessage okMessage True busyState))) ''r1'' = None
   \<and> map_of (pendingRequests (snd (onMessage okMessage True busyState))) ''r2'' = Some lsPending
   \<and> map_of (pendingRequests (snd (onMessage okMessage True busyState))) ''q0'' = Some askPending0"
proof -
  have h1: "\<not> truthy (subtype okMessage)" and h2: "\<not> truthy (bot_id okMessage)"
    and h3: "\<not> truthy (thread_ts okMessage)"
    by (simp_all add: okMessage_def truthy_def)
  have h4: "pendingRequests busyState = [(''q0'', askPending0)] @ (''r1'', bashPending) # [(''r2'', lsPending)]"
    by (simp add: busyState_def)
  have h5: "\<forall>e \<in> set [(''q0'', askPending0)].
      \<not> (slackChannel (snd e) = Some (channel okMessage) \<and> \<not> isQuestion (snd e))"
    by (simp add: askPending0_def askPending_def)
  have h6: "slackChannel bashPending = Some (channel okMessage)" and h7: "\<not> isQuestion bashPending"
    by (simp_all add: bashPending_def okMessage_def)
  note T = direct_message_resolves_first_in_channel[OF busyState_reachable h1 h2 h3 h4 h5 h6 h7, of True]
  have run: "onMessage okMessage True busyState = approveRequest bashPending True busyState"
    using T okMessage_says by blast
  have r: "request bashPending
      = PermissionRequest ''PermissionRequest'' ''Bash'' [(''command'', JStr ''echo hi'')] ''s1''"
    by (simp add: bashPending_def bashRequest_def)
  note A = approveRequest_permission[OF r h7, of True busyState]
  have e: "fst (approveRequest bashPending True busyState)
     = [ChatUpdate ''C1'' ''111.1'' Approved, SocketWrite 1 (replyLine cacheResponse), SocketEnd 1]"
    using A by (simp add: bashPending_def published_def truthy_def updateCall_def
        attachedSockets_def writeAndEnd_def)
  have g: "map_of (pendingRequests (snd (approveRequest bashPending True busyState))) ''r1'' = None"
    using A by (simp add: bashPending_def map_of_delete)
  have o2: "map_of (pendingRequests (snd (onMessage okMessage True busyState))) ''r2'' = Some lsPending"
    using T by (simp add: busyState_def)
  have o0: "map_of (pendingRequests (snd (onMessage okMessage True busyState))) ''q0'' = Some askPending0"
    using T by (simp add: busyState_def)
  show ?thesis using run e g o2 o0 by simp
qed

section \<open>The session approval cache under signals\<close>

lemma storeAnswers_cache [simp]:
  "sessionApprovals (storeAnswers rid p a s) = sessionApprovals s"
  by (simp add: storeAnswers_def)




















end
